theory Spec2Isabelle
  imports Complex_Main
begin

section \<open>Errors\<close>

text \<open>
  The Python exceptions the two modules can raise, as values. A function that may raise
  returns \<open>error + 'a\<close>, with \<open>Inl\<close> for the exception.
\<close>

datatype error = NotImplementedError | ZeroDivisionError | ValueError | KeyError | NameError

type_synonym vkey = nat
type_synonym fkey = nat
type_synonym xyz = "real \<times> real \<times> real"

section \<open>The subdivision dispatcher (\<open>topology/subdivision.py\<close>)\<close>

text \<open>
  \<open>mesh_subdivide(mesh, scheme='tri', **options)\<close> compares the scheme name with five
  literals, in this order, and hands the mesh and the options to the scheme's function;
  past the last comparison it raises \<open>NotImplementedError\<close>. The five scheme functions
  are the fields of a record, so the dispatcher is stated for any implementation of them.
  A call returns its outcome together with the caller's mesh object as the call leaves it
  (the object is passed by reference).
\<close>

record ('m, 'o) schemes =
  mesh_subdivide_tri :: "'m \<Rightarrow> 'o \<Rightarrow> (error + 'm) \<times> 'm"
  mesh_subdivide_quad :: "'m \<Rightarrow> 'o \<Rightarrow> (error + 'm) \<times> 'm"
  mesh_subdivide_corner :: "'m \<Rightarrow> 'o \<Rightarrow> (error + 'm) \<times> 'm"
  mesh_subdivide_catmullclark :: "'m \<Rightarrow> 'o \<Rightarrow> (error + 'm) \<times> 'm"
  mesh_subdivide_doosabin :: "'m \<Rightarrow> 'o \<Rightarrow> (error + 'm) \<times> 'm"

definition mesh_subdivide ::
  "('m, 'o) schemes \<Rightarrow> 'm \<Rightarrow> string \<Rightarrow> 'o \<Rightarrow> (error + 'm) \<times> 'm" where
  "mesh_subdivide S mesh scheme options =
     (if scheme = ''tri'' then mesh_subdivide_tri S mesh options
      else if scheme = ''quad'' then mesh_subdivide_quad S mesh options
      else if scheme = ''corner'' then mesh_subdivide_corner S mesh options
      else if scheme = ''catmullclark'' then mesh_subdivide_catmullclark S mesh options
      else if scheme = ''doosabin'' then mesh_subdivide_doosabin S mesh options
      else (Inl NotImplementedError, mesh))"

text \<open>The scheme names the dispatcher compares against.\<close>

definition recognised_schemes :: "string set" where
  "recognised_schemes = {''tri'', ''quad'', ''corner'', ''catmullclark'', ''doosabin''}"

text \<open>The scheme function a recognised name selects.\<close>

definition scheme_function ::
  "('m, 'o) schemes \<Rightarrow> string \<Rightarrow> ('m \<Rightarrow> 'o \<Rightarrow> (error + 'm) \<times> 'm)" where
  "scheme_function S scheme =
     (if scheme = ''tri'' then mesh_subdivide_tri S
      else if scheme = ''quad'' then mesh_subdivide_quad S
      else if scheme = ''corner'' then mesh_subdivide_corner S
      else if scheme = ''catmullclark'' then mesh_subdivide_catmullclark S
      else mesh_subdivide_doosabin S)"

section \<open>The mesh data model\<close>

text \<open>
  Modelled from the spec: the \<open>Mesh\<close> class is not among the repository's files under
  \<open>src/\<close>; both modules only call it. The spec's data model (sections 3, 6 and 9) is a
  vertex table and a face table keyed by increasing integer identifiers, with the
  half-edge adjacency derived from the faces' vertex cycles. A table is an association
  list in insertion order. The two counters give the next unused vertex and face key.
\<close>

record mesh =
  vertex :: "(vkey \<times> xyz) list"
  face :: "(fkey \<times> vkey list) list"
  next_vkey :: vkey
  next_fkey :: fkey

text \<open>Python's \<open>d[k]\<close> on a dictionary: \<open>KeyError\<close> for a missing key.\<close>

definition getitem :: "('k \<times> 'v) list \<Rightarrow> 'k \<Rightarrow> error + 'v" where
  "getitem d k = (case map_of d k of None \<Rightarrow> Inl KeyError | Some v \<Rightarrow> Inr v)"

text \<open>A list comprehension over calls that may raise: the first exception ends it.\<close>

fun map_err :: "('a \<Rightarrow> error + 'b) \<Rightarrow> 'a list \<Rightarrow> error + 'b list" where
  "map_err f [] = Inr []"
| "map_err f (x # xs) =
     (case f x of
        Inl e \<Rightarrow> Inl e
      | Inr y \<Rightarrow> (case map_err f xs of Inl e \<Rightarrow> Inl e | Inr ys \<Rightarrow> Inr (y # ys)))"

text \<open>
  Modelled from the spec: the half-edges of a face are the consecutive pairs of its
  vertex cycle, the last vertex paired with the first.
\<close>

definition cycle_pairs :: "'a list \<Rightarrow> ('a \<times> 'a) list" where
  "cycle_pairs xs = zip xs (rotate1 xs)"

definition all_halfedges :: "mesh \<Rightarrow> ((vkey \<times> vkey) \<times> fkey) list" where
  "all_halfedges m =
     concat (map (\<lambda>(f, vs). map (\<lambda>uv. (uv, f)) (cycle_pairs vs)) (face m))"

text \<open>
  Modelled from the spec: \<open>mesh.halfedge[u][v]\<close> is the face of the half-edge
  \<open>(u, v)\<close>, \<open>None\<close> when only its twin \<open>(v, u)\<close> has a face (the edge is on the
  boundary), and a \<open>KeyError\<close> when the mesh has no such edge.
\<close>

definition halfedge :: "mesh \<Rightarrow> vkey \<Rightarrow> vkey \<Rightarrow> error + fkey option" where
  "halfedge m u v =
     (case map_of (all_halfedges m) (u, v) of
        Some f \<Rightarrow> Inr (Some f)
      | None \<Rightarrow> if (v, u) \<in> fst ` set (all_halfedges m) then Inr None else Inl KeyError)"

text \<open>Modelled from the spec: the vertex keys, \<open>mesh.vertices()\<close>, and \<open>mesh.faces()\<close>.\<close>

definition vertices :: "mesh \<Rightarrow> vkey list" where
  "vertices m = map fst (vertex m)"

definition faces :: "mesh \<Rightarrow> fkey list" where
  "faces m = map fst (face m)"

definition vertex_coordinates :: "mesh \<Rightarrow> vkey \<Rightarrow> error + xyz" where
  "vertex_coordinates m key = getitem (vertex m) key"

definition face_vertices :: "mesh \<Rightarrow> fkey \<Rightarrow> error + vkey list" where
  "face_vertices m fkey = getitem (face m) fkey"

text \<open>
  Modelled from the spec: the keys of \<open>mesh.halfedge[u]\<close> are the distinct vertices
  adjacent to \<open>u\<close> through a half-edge in either direction; \<open>KeyError\<close> when \<open>u\<close> is
  not a vertex of the mesh.
\<close>

definition halfedge_keys :: "mesh \<Rightarrow> vkey \<Rightarrow> error + vkey list" where
  "halfedge_keys m u =
     (if u \<notin> set (vertices m) then Inl KeyError
      else Inr (remdups (concat (map (\<lambda>((a, b), f).
                  (if a = u then [b] else []) @ (if b = u then [a] else []))
                (all_halfedges m)))))"

text \<open>
  Modelled from the spec: "report a vertex's degree (count of distinct adjacent
  vertices)".
\<close>

definition vertex_degree :: "mesh \<Rightarrow> vkey \<Rightarrow> error + int" where
  "vertex_degree m key =
     (case halfedge_keys m key of Inl e \<Rightarrow> Inl e | Inr nbrs \<Rightarrow> Inr (int (length nbrs)))"

text \<open>
  Modelled from the spec: \<open>mesh.edges()\<close> iterates the edges in mesh order, each
  undirected edge once, in the direction of its first half-edge.
\<close>

fun unique_edges :: "(vkey \<times> vkey) list \<Rightarrow> (vkey \<times> vkey) list \<Rightarrow> (vkey \<times> vkey) list" where
  "unique_edges seen [] = []"
| "unique_edges seen ((u, v) # r) =
     (if (u, v) \<in> set seen \<or> (v, u) \<in> set seen then unique_edges seen r
      else (u, v) # unique_edges ((u, v) # seen) r)"

definition edges :: "mesh \<Rightarrow> (vkey \<times> vkey) list" where
  "edges m = unique_edges [] (map fst (all_halfedges m))"

text \<open>Modelled from the spec: "report an edge's geometric length".\<close>

definition distance :: "xyz \<Rightarrow> xyz \<Rightarrow> real" where
  "distance p q =
     (case (p, q) of ((x1, y1, z1), (x2, y2, z2)) \<Rightarrow>
        sqrt ((x2 - x1) * (x2 - x1) + (y2 - y1) * (y2 - y1) + (z2 - z1) * (z2 - z1)))"

definition edge_length :: "mesh \<Rightarrow> vkey \<Rightarrow> vkey \<Rightarrow> error + real" where
  "edge_length m u v =
     (case vertex_coordinates m u of
        Inl e \<Rightarrow> Inl e
      | Inr p \<Rightarrow> (case vertex_coordinates m v of Inl e \<Rightarrow> Inl e | Inr q \<Rightarrow> Inr (distance p q)))"

text \<open>
  Modelled from the spec: "boundary vertices are exactly those incident to an edge with
  a missing twin face".
\<close>

definition vertices_on_boundary :: "mesh \<Rightarrow> vkey list" where
  "vertices_on_boundary m =
     (let hs = map fst (all_halfedges m)
      in remdups (concat (map (\<lambda>(u, v). if (v, u) \<in> set hs then [] else [u, v]) hs)))"

text \<open>
  Modelled from the spec: "ordered incident faces of a vertex": the face of each
  half-edge leaving the vertex, \<open>None\<close> where that half-edge has no face.
\<close>

definition vertex_faces :: "mesh \<Rightarrow> vkey \<Rightarrow> error + fkey option list" where
  "vertex_faces m key =
     (case halfedge_keys m key of
        Inl e \<Rightarrow> Inl e
      | Inr nbrs \<Rightarrow> map_err (\<lambda>nbr. halfedge m key nbr) nbrs)"

section \<open>The remeshing optimiser (\<open>datastructures/mesh/algorithms/optimisation.py\<close>)\<close>

text \<open>
  \<open>trimesh_optimise_topology\<close> imports three mesh operations and the smoothing helper
  from modules that are not under \<open>src/\<close>. They are the fields of a record, so every
  statement about the optimiser holds for any implementation of them; each may raise.
  \<open>smooth_area\<close> mutates the \<open>vertices\<close> dictionary it is given; here it returns it.
\<close>

record collaborators =
  trimesh_split_edge :: "mesh \<Rightarrow> vkey \<Rightarrow> vkey \<Rightarrow> bool \<Rightarrow> error + mesh"
  trimesh_collapse_edge :: "mesh \<Rightarrow> vkey \<Rightarrow> vkey \<Rightarrow> bool \<Rightarrow> vkey list option \<Rightarrow> error + mesh"
  trimesh_swap_edge :: "mesh \<Rightarrow> vkey \<Rightarrow> vkey \<Rightarrow> bool \<Rightarrow> error + mesh"
  smooth_area :: "(vkey \<times> xyz) list \<Rightarrow> (fkey \<times> vkey list) list \<Rightarrow>
                  (vkey \<times> fkey option list) list \<Rightarrow> vkey set \<Rightarrow> nat \<Rightarrow> error + (vkey \<times> xyz) list"

text \<open>
  The keyword arguments of the call (\<open>verbose\<close> only prints and is left out). The
  callback receives the mesh object, the round index and \<open>callback_args\<close>; it may
  change the mesh and it may raise.
\<close>

record 'a arguments =
  target :: real
  kmax :: int
  tol :: real
  divergence :: real
  allow_boundary_split :: bool
  allow_boundary_swap :: bool
  allow_boundary_collapse :: bool
  smooth :: bool
  fixed :: "vkey list option"
  callback :: "(mesh \<Rightarrow> nat \<Rightarrow> 'a \<Rightarrow> error + mesh) option"
  callback_args :: 'a

text \<open>
  The calls the optimiser makes to its collaborators and to the callback are its
  effects; each is recorded, in order, with its arguments.
\<close>

datatype call =
    SplitEdge vkey vkey bool
  | CollapseEdge vkey vkey bool "vkey list option"
  | SwapEdge vkey vkey bool
  | SmoothArea "vkey set" nat
  | Callback nat

text \<open>
  A raise carries the mesh as the raise leaves it and the calls made before it.
\<close>

type_synonym 'r outcome = "(error \<times> mesh \<times> call list) + 'r"

text \<open>The local variables that live across rounds.\<close>

record state =
  cur_mesh :: mesh
  boundary :: "vkey set"
  count :: nat
  num_vertices_1 :: "nat option"
  calls :: "call list"

text \<open>Python's \<open>max\<close> of a list: \<open>ValueError\<close> on the empty list.\<close>

definition py_max :: "real list \<Rightarrow> error + real" where
  "py_max xs = (case xs of [] \<Rightarrow> Inl ValueError | x # r \<Rightarrow> Inr (fold max r x))"

text \<open>Python's \<open>xs.index(x)\<close>: the first position of \<open>x\<close>, \<open>ValueError\<close> when absent.\<close>

fun py_index :: "'a list \<Rightarrow> 'a \<Rightarrow> error + nat" where
  "py_index [] x = Inl ValueError"
| "py_index (y # ys) x =
     (if y = x then Inr 0
      else (case py_index ys x of Inl e \<Rightarrow> Inl e | Inr i \<Rightarrow> Inr (Suc i)))"

text \<open>
  \<open>xs[i - 1]\<close> for a position \<open>i\<close> of \<open>xs\<close>: Python reads index \<open>-1\<close> as the last
  element.
\<close>

definition item_before :: "'a list \<Rightarrow> nat \<Rightarrow> 'a" where
  "item_before xs i = (if i = 0 then last xs else xs ! (i - 1))"

subsection \<open>The split phase (lines 177 to 191)\<close>

text \<open>
  \<open>mesh.edges()\<close> is read once, when the \<open>for\<close> statement starts; the loop then runs
  over that list while the mesh changes.
\<close>

fun split_edges ::
  "collaborators \<Rightarrow> real \<Rightarrow> bool \<Rightarrow> (vkey \<times> vkey) list \<Rightarrow>
   mesh \<times> vkey set \<times> call list \<Rightarrow> (mesh \<times> vkey set \<times> call list) outcome" where
  "split_edges C threshold allow [] s = Inr s"
| "split_edges C threshold allow ((u, v) # es) (m, visited, cs) =
     (if u \<in> visited \<or> v \<in> visited then split_edges C threshold allow es (m, visited, cs)
      else (case edge_length m u v of
        Inl e \<Rightarrow> Inl (e, m, cs)
      | Inr l \<Rightarrow>
          if l \<le> threshold then split_edges C threshold allow es (m, visited, cs)
          else (case trimesh_split_edge C m u v allow of
            Inl e \<Rightarrow> Inl (e, m, cs @ [SplitEdge u v allow])
          | Inr m' \<Rightarrow>
              split_edges C threshold allow es
                (m', insert v (insert u visited), cs @ [SplitEdge u v allow]))))"

subsection \<open>The collapse phase (lines 193 to 210)\<close>

fun collapse_edges ::
  "collaborators \<Rightarrow> real \<Rightarrow> bool \<Rightarrow> vkey list option \<Rightarrow> (vkey \<times> vkey) list \<Rightarrow>
   mesh \<times> vkey set \<times> call list \<Rightarrow> (mesh \<times> vkey set \<times> call list) outcome" where
  "collapse_edges C threshold allow fx [] s = Inr s"
| "collapse_edges C threshold allow fx ((u, v) # es) (m, visited, cs) =
     (if u \<in> visited \<or> v \<in> visited then collapse_edges C threshold allow fx es (m, visited, cs)
      else (case edge_length m u v of
        Inl e \<Rightarrow> Inl (e, m, cs)
      | Inr l \<Rightarrow>
          if l \<ge> threshold then collapse_edges C threshold allow fx es (m, visited, cs)
          else (case trimesh_collapse_edge C m u v allow fx of
            Inl e \<Rightarrow> Inl (e, m, cs @ [CollapseEdge u v allow fx])
          | Inr m' \<Rightarrow>
              (case halfedge_keys m' u of
                 Inl e \<Rightarrow> Inl (e, m', cs @ [CollapseEdge u v allow fx])
               | Inr nbrs \<Rightarrow>
                   collapse_edges C threshold allow fx es
                     (m', insert v (insert u visited) \<union> set nbrs,
                      cs @ [CollapseEdge u v allow fx])))))"

subsection \<open>The swap phase (lines 213 to 257)\<close>

text \<open>
  The valency of a vertex as the swap phase counts it: its degree, and two more when the
  vertex is in the optimiser's \<open>boundary\<close> set.
\<close>

definition valency :: "mesh \<Rightarrow> vkey set \<Rightarrow> vkey \<Rightarrow> error + int" where
  "valency m bnd x =
     (case vertex_degree m x of
        Inl e \<Rightarrow> Inl e
      | Inr d \<Rightarrow> Inr (if x \<in> bnd then d + 2 else d))"

definition current_error :: "int \<Rightarrow> int \<Rightarrow> int \<Rightarrow> int \<Rightarrow> int" where
  "current_error valency1 valency2 valency3 valency4 =
     abs (valency1 - 6) + abs (valency2 - 6) + abs (valency3 - 6) + abs (valency4 - 6)"

definition flipped_error :: "int \<Rightarrow> int \<Rightarrow> int \<Rightarrow> int \<Rightarrow> int" where
  "flipped_error valency1 valency2 valency3 valency4 =
     abs (valency1 - 7) + abs (valency2 - 7) + abs (valency3 - 5) + abs (valency4 - 5)"

text \<open>
  The part of the loop body between the \<open>None\<close> test and the comparison of the two
  errors: the two opposite vertices and the four valencies. \<open>Inr True\<close> when the body
  goes on to call \<open>trimesh_swap_edge\<close>, \<open>Inr False\<close> when it reaches \<open>continue\<close>.
\<close>

definition swap_wanted :: "mesh \<Rightarrow> vkey set \<Rightarrow> vkey \<Rightarrow> vkey \<Rightarrow> fkey \<Rightarrow> fkey \<Rightarrow> error + bool" where
  "swap_wanted m bnd u v f1 f2 =
     (case getitem (face m) f1 of Inl e \<Rightarrow> Inl e | Inr face1 \<Rightarrow>
      case getitem (face m) f2 of Inl e \<Rightarrow> Inl e | Inr face2 \<Rightarrow>
      case py_index face1 u of Inl e \<Rightarrow> Inl e | Inr i1 \<Rightarrow>
      case py_index face2 v of Inl e \<Rightarrow> Inl e | Inr i2 \<Rightarrow>
      let v1 = item_before face1 i1; v2 = item_before face2 i2 in
      case valency m bnd u of Inl e \<Rightarrow> Inl e | Inr valency1 \<Rightarrow>
      case valency m bnd v of Inl e \<Rightarrow> Inl e | Inr valency2 \<Rightarrow>
      case valency m bnd v1 of Inl e \<Rightarrow> Inl e | Inr valency3 \<Rightarrow>
      case valency m bnd v2 of Inl e \<Rightarrow> Inl e | Inr valency4 \<Rightarrow>
      Inr (\<not> current_error valency1 valency2 valency3 valency4
               \<le> flipped_error valency1 valency2 valency3 valency4))"

fun swap_edges ::
  "collaborators \<Rightarrow> vkey set \<Rightarrow> bool \<Rightarrow> (vkey \<times> vkey) list \<Rightarrow>
   mesh \<times> vkey set \<times> call list \<Rightarrow> (mesh \<times> vkey set \<times> call list) outcome" where
  "swap_edges C bnd allow [] s = Inr s"
| "swap_edges C bnd allow ((u, v) # es) (m, visited, cs) =
     (if u \<in> visited \<or> v \<in> visited then swap_edges C bnd allow es (m, visited, cs)
      else (case halfedge m u v of Inl e \<Rightarrow> Inl (e, m, cs) | Inr f1 \<Rightarrow>
            case halfedge m v u of Inl e \<Rightarrow> Inl (e, m, cs) | Inr f2 \<Rightarrow>
            (case (f1, f2) of
               (Some f1', Some f2') \<Rightarrow>
                 (case swap_wanted m bnd u v f1' f2' of
                    Inl e \<Rightarrow> Inl (e, m, cs)
                  | Inr False \<Rightarrow> swap_edges C bnd allow es (m, visited, cs)
                  | Inr True \<Rightarrow>
                      (case trimesh_swap_edge C m u v allow of
                         Inl e \<Rightarrow> Inl (e, m, cs @ [SwapEdge u v allow])
                       | Inr m' \<Rightarrow>
                           swap_edges C bnd allow es
                             (m', insert v (insert u visited), cs @ [SwapEdge u v allow])))
             | _ \<Rightarrow> swap_edges C bnd allow es (m, visited, cs))))"

subsection \<open>One round (lines 160 to 283)\<close>

text \<open>
  The slack \<open>(dlmin, dlmax)\<close> of round \<open>k\<close>. Inside the loop \<open>kmax\<close> is at least 1, so
  \<open>kmax_start\<close> is positive and the division is defined.
\<close>

definition slack :: "real \<Rightarrow> real \<Rightarrow> real \<Rightarrow> real \<Rightarrow> nat \<Rightarrow> real \<times> real" where
  "slack lmin lmax fac kmax_start k =
     (if real k \<le> kmax_start then
        (let scale_val = fac * (1 - real k / kmax_start)
         in (lmin * scale_val, lmax * scale_val))
      else (0, 0))"

text \<open>
  The phase of a round, chosen by \<open>count\<close> after its increment: split, collapse, swap,
  or the reset of \<open>count\<close>.
\<close>

definition phase ::
  "collaborators \<Rightarrow> 'a arguments \<Rightarrow> real \<Rightarrow> real \<Rightarrow> real \<Rightarrow> real \<Rightarrow> state \<Rightarrow> state outcome" where
  "phase C A lmin lmax dlmin dlmax s =
     (if count s = 1 then
        (case split_edges C (lmax + dlmax) (allow_boundary_split A)
                (edges (cur_mesh s)) (cur_mesh s, {}, calls s) of
           Inl x \<Rightarrow> Inl x
         | Inr (m, visited, cs) \<Rightarrow> Inr (s\<lparr>cur_mesh := m, calls := cs\<rparr>))
      else if count s = 2 then
        (case collapse_edges C (lmin - dlmin) (allow_boundary_collapse A) (fixed A)
                (edges (cur_mesh s)) (cur_mesh s, {}, calls s) of
           Inl x \<Rightarrow> Inl x
         | Inr (m, visited, cs) \<Rightarrow> Inr (s\<lparr>cur_mesh := m, calls := cs\<rparr>))
      else if count s = 3 then
        (case swap_edges C (boundary s) (allow_boundary_swap A)
                (edges (cur_mesh s)) (cur_mesh s, {}, calls s) of
           Inl x \<Rightarrow> Inl x
         | Inr (m, visited, cs) \<Rightarrow> Inr (s\<lparr>cur_mesh := m, calls := cs\<rparr>))
      else Inr (s\<lparr>count := 0\<rparr>))"

text \<open>
  The test of line 265, \<open>abs(1 - num_vertices_1 / num_vertices_2) < divergence and
  k > kmax_start\<close>, with true division: \<open>num_vertices_1\<close> is the count saved on the last
  round with \<open>k % 20 == 0\<close>, \<open>num_vertices_2\<close> the count of the current round. The
  quotient is evaluated first, so an empty mesh raises \<open>ZeroDivisionError\<close>.
\<close>

definition convergence :: "nat option \<Rightarrow> nat \<Rightarrow> real \<Rightarrow> nat \<Rightarrow> real \<Rightarrow> error + bool" where
  "convergence saved num_vertices_2 dvg k kmax_start =
     (case saved of
        None \<Rightarrow> Inl NameError
      | Some num_vertices_old \<Rightarrow>
          if num_vertices_2 = 0 then Inl ZeroDivisionError
          else Inr (abs (1 - real num_vertices_old / real num_vertices_2) < dvg
                    \<and> real k > kmax_start))"

text \<open>Writing a vertex's coordinates (\<open>attr['x'] = ...\<close> and so on).\<close>

definition set_xyz :: "mesh \<Rightarrow> vkey \<Rightarrow> xyz \<Rightarrow> mesh" where
  "set_xyz m key p =
     m\<lparr>vertex := map (\<lambda>(k, q). if k = key then (k, p) else (k, q)) (vertex m)\<rparr>"

fun write_back :: "(vkey \<times> xyz) list \<Rightarrow> vkey list \<Rightarrow> mesh \<Rightarrow> (error \<times> mesh) + mesh" where
  "write_back vs [] m = Inr m"
| "write_back vs (key # keys) m =
     (case getitem vs key of
        Inl e \<Rightarrow> Inl (e, m)
      | Inr p \<Rightarrow> write_back vs keys (set_xyz m key p))"

text \<open>
  The smoothing step (lines 269 to 280). The set handed to \<open>smooth_area\<close> as \<open>fixed\<close>
  is the boundary just recomputed; the caller's \<open>fixed\<close> argument does not occur in
  these lines.
\<close>

definition smoothen :: "collaborators \<Rightarrow> state \<Rightarrow> state outcome" where
  "smoothen C s =
     (let m = cur_mesh s; bnd = set (vertices_on_boundary m) in
      case map_err (\<lambda>key. case vertex_coordinates m key of
                            Inl e \<Rightarrow> Inl e | Inr p \<Rightarrow> Inr (key, p)) (vertices m) of
        Inl e \<Rightarrow> Inl (e, m, calls s) | Inr vs \<Rightarrow>
      case map_err (\<lambda>fkey. case face_vertices m fkey of
                            Inl e \<Rightarrow> Inl e | Inr keys \<Rightarrow> Inr (fkey, keys)) (faces m) of
        Inl e \<Rightarrow> Inl (e, m, calls s) | Inr fs \<Rightarrow>
      case map_err (\<lambda>key. case vertex_faces m key of
                            Inl e \<Rightarrow> Inl e | Inr fkeys \<Rightarrow> Inr (key, fkeys)) (vertices m) of
        Inl e \<Rightarrow> Inl (e, m, calls s) | Inr adjacency \<Rightarrow>
      case smooth_area C vs fs adjacency bnd 1 of
        Inl e \<Rightarrow> Inl (e, m, calls s @ [SmoothArea bnd 1]) | Inr vs' \<Rightarrow>
      case write_back vs' (vertices m) m of
        Inl (e, m') \<Rightarrow> Inl (e, m', calls s @ [SmoothArea bnd 1])
      | Inr m' \<Rightarrow>
          Inr (s\<lparr>cur_mesh := m', boundary := bnd, calls := calls s @ [SmoothArea bnd 1]\<rparr>))"

text \<open>The callback (lines 282 and 283).\<close>

definition invoke_callback :: "'a arguments \<Rightarrow> nat \<Rightarrow> state \<Rightarrow> state outcome" where
  "invoke_callback A k s =
     (case callback A of
        None \<Rightarrow> Inr s
      | Some cb \<Rightarrow>
          (case cb (cur_mesh s) k (callback_args A) of
             Inl e \<Rightarrow> Inl (e, cur_mesh s, calls s @ [Callback k])
           | Inr m \<Rightarrow> Inr (s\<lparr>cur_mesh := m, calls := calls s @ [Callback k]\<rparr>)))"

text \<open>
  The loop body up to the end of the phase (lines 160 to 260): the slack of the round,
  the increment of \<open>count\<close>, the snapshot of the vertex count on a round with
  \<open>k % 20 == 0\<close>, and the phase.
\<close>

definition upto_phase ::
  "collaborators \<Rightarrow> 'a arguments \<Rightarrow> real \<Rightarrow> real \<Rightarrow> real \<Rightarrow> real \<Rightarrow> nat \<Rightarrow> state \<Rightarrow>
   state outcome" where
  "upto_phase C A lmin lmax fac kmax_start k s0 =
     (let dl = slack lmin lmax fac kmax_start k;
          dlmin = fst dl;
          dlmax = snd dl;
          s1 = s0\<lparr>count := count s0 + 1\<rparr>;
          s2 = (if k mod 20 = 0
                then s1\<lparr>num_vertices_1 := Some (length (vertex (cur_mesh s1)))\<rparr> else s1)
      in phase C A lmin lmax dlmin dlmax s2)"

text \<open>
  The loop body. The result says whether the round ended in \<open>break\<close>; \<open>break\<close> leaves
  the loop at once, before the smoothing step and the callback of that round.
\<close>

definition iteration ::
  "collaborators \<Rightarrow> 'a arguments \<Rightarrow> real \<Rightarrow> real \<Rightarrow> real \<Rightarrow> real \<Rightarrow> nat \<Rightarrow> state \<Rightarrow>
   (bool \<times> state) outcome" where
  "iteration C A lmin lmax fac kmax_start k s0 =
     (case upto_phase C A lmin lmax fac kmax_start k s0 of
        Inl x \<Rightarrow> Inl x
      | Inr s3 \<Rightarrow>
          (case (if (int k - 10) mod 20 = 0
                 then convergence (num_vertices_1 s3) (length (vertex (cur_mesh s3)))
                        (divergence A) k kmax_start
                 else Inr False) of
             Inl e \<Rightarrow> Inl (e, cur_mesh s3, calls s3)
           | Inr True \<Rightarrow> Inr (True, s3)
           | Inr False \<Rightarrow>
               (case (if smooth A then smoothen C s3 else Inr s3) of
                  Inl x \<Rightarrow> Inl x
                | Inr s4 \<Rightarrow>
                    (case invoke_callback A k s4 of
                       Inl x \<Rightarrow> Inl x
                     | Inr s5 \<Rightarrow> Inr (False, s5)))))"

text \<open>\<open>for k in xrange(kmax)\<close>, over the list of the round indices still to run.\<close>

fun iterations ::
  "collaborators \<Rightarrow> 'a arguments \<Rightarrow> real \<Rightarrow> real \<Rightarrow> real \<Rightarrow> real \<Rightarrow> nat list \<Rightarrow> state \<Rightarrow>
   state outcome" where
  "iterations C A lmin lmax fac kmax_start [] s = Inr s"
| "iterations C A lmin lmax fac kmax_start (k # ks) s =
     (case iteration C A lmin lmax fac kmax_start k s of
        Inl x \<Rightarrow> Inl x
      | Inr (stop, s') \<Rightarrow>
          if stop then Inr s' else iterations C A lmin lmax fac kmax_start ks s')"

subsection \<open>The whole call (lines 142 to 283)\<close>

text \<open>
  The function returns \<open>None\<close>; its result is the mesh it has changed in place. The
  model returns the final state, which holds that mesh and the calls made. No line of
  the function inspects \<open>target\<close>, \<open>tol\<close> or \<open>kmax\<close> before using them.
\<close>

definition trimesh_optimise_topology ::
  "collaborators \<Rightarrow> 'a arguments \<Rightarrow> mesh \<Rightarrow> state outcome" where
  "trimesh_optimise_topology C A m =
     (let lmin = (1 - tol A) * (4 / 5) * target A;
          lmax = (1 + tol A) * (4 / 3) * target A
      in case map_err (\<lambda>(u, v). edge_length m u v) (edges m) of
           Inl e \<Rightarrow> Inl (e, m, [])
         | Inr edge_lengths \<Rightarrow>
             (case py_max edge_lengths of
                Inl e \<Rightarrow> Inl (e, m, [])
              | Inr longest \<Rightarrow>
                  (let target_start = longest / 2 in
                   if target A = 0 then Inl (ZeroDivisionError, m, [])
                   else
                     (let fac = target_start / target A;
                          kmax_start = real_of_int (kmax A) / 2
                      in iterations C A lmin lmax fac kmax_start [0..<nat (kmax A)]
                           \<lparr>cur_mesh = m, boundary = set (vertices_on_boundary m),
                            count = 0, num_vertices_1 = None, calls = []\<rparr>))))"

section \<open>The collaborators, modelled\<close>

text \<open>
  Modelled from the spec: adding a free vertex at given coordinates, adding a face from
  an ordered vertex list, replacing a face's vertex list, removing a face, removing a
  vertex. A new vertex or face gets the next unused key. (These are operations of the
  \<open>Mesh\<close> class, which is not under \<open>src/\<close>.)
\<close>

definition add_vertex :: "mesh \<Rightarrow> xyz \<Rightarrow> vkey \<times> mesh" where
  "add_vertex m p =
     (next_vkey m, m\<lparr>vertex := vertex m @ [(next_vkey m, p)], next_vkey := Suc (next_vkey m)\<rparr>)"

definition add_face :: "mesh \<Rightarrow> vkey list \<Rightarrow> fkey \<times> mesh" where
  "add_face m vs =
     (next_fkey m, m\<lparr>face := face m @ [(next_fkey m, vs)], next_fkey := Suc (next_fkey m)\<rparr>)"

definition replace_face :: "mesh \<Rightarrow> fkey \<Rightarrow> vkey list \<Rightarrow> mesh" where
  "replace_face m f vs =
     m\<lparr>face := map (\<lambda>(k, old). if k = f then (k, vs) else (k, old)) (face m)\<rparr>"

definition delete_face :: "mesh \<Rightarrow> fkey \<Rightarrow> error + mesh" where
  "delete_face m f =
     (if f \<notin> set (faces m) then Inl KeyError
      else Inr (m\<lparr>face := filter (\<lambda>(k, vs). k \<noteq> f) (face m)\<rparr>))"

definition delete_vertex :: "mesh \<Rightarrow> vkey \<Rightarrow> mesh" where
  "delete_vertex m v = m\<lparr>vertex := filter (\<lambda>(k, p). k \<noteq> v) (vertex m)\<rparr>"

definition midpoint :: "xyz \<Rightarrow> xyz \<Rightarrow> xyz" where
  "midpoint p q =
     (case (p, q) of ((x1, y1, z1), (x2, y2, z2)) \<Rightarrow>
        ((x1 + x2) / 2, (y1 + y2) / 2, (z1 + z2) / 2))"

text \<open>
  Modelled from the spec: \<open>trimesh_split_edge\<close> is imported from
  \<open>compas.datastructures.mesh.operations\<close>, which is not under \<open>src/\<close>. The spec's
  contract: it "inserts a vertex subdividing the edge into two, rewiring incident faces",
  and is a no-op when the edge is a boundary edge and \<open>allow_boundary\<close> is false. In a
  triangle mesh the new vertex is the midpoint and each incident triangle \<open>(a, b, c)\<close>
  becomes the two triangles \<open>(a, w, c)\<close> and \<open>(w, b, c)\<close>.
\<close>

definition split_triangle :: "mesh \<Rightarrow> fkey option \<Rightarrow> vkey \<Rightarrow> vkey \<Rightarrow> vkey \<Rightarrow> error + mesh" where
  "split_triangle m fo a b w =
     (case fo of
        None \<Rightarrow> Inr m
      | Some f \<Rightarrow>
          (case getitem (face m) f of Inl e \<Rightarrow> Inl e | Inr vs \<Rightarrow>
           case py_index vs a of Inl e \<Rightarrow> Inl e | Inr i \<Rightarrow>
           let c = item_before vs i
           in Inr (snd (add_face (replace_face m f [a, w, c]) [w, b, c]))))"

definition model_split_edge :: "mesh \<Rightarrow> vkey \<Rightarrow> vkey \<Rightarrow> bool \<Rightarrow> error + mesh" where
  "model_split_edge m u v allow_boundary =
     (case halfedge m u v of Inl e \<Rightarrow> Inl e | Inr fuv \<Rightarrow>
      case halfedge m v u of Inl e \<Rightarrow> Inl e | Inr fvu \<Rightarrow>
      if \<not> allow_boundary \<and> (fuv = None \<or> fvu = None) then Inr m
      else
        (case vertex_coordinates m u of Inl e \<Rightarrow> Inl e | Inr p \<Rightarrow>
         case vertex_coordinates m v of Inl e \<Rightarrow> Inl e | Inr q \<Rightarrow>
         let wm = add_vertex m (midpoint p q); w = fst wm
         in (case split_triangle (snd wm) fuv u v w of
               Inl e \<Rightarrow> Inl e
             | Inr m2 \<Rightarrow> split_triangle m2 fvu v u w)))"

text \<open>
  Modelled from the spec: \<open>trimesh_collapse_edge\<close> (same module). The spec's contract:
  it "removes one endpoint, merging incident geometry", and refuses (a no-op) "if either
  endpoint is in \<open>fixed_set\<close>, or if boundary constraints disallow it". The endpoint
  \<open>u\<close> survives (the optimiser reads \<open>mesh.halfedge[u]\<close> after the call): the faces
  that hold both endpoints go, and \<open>v\<close> becomes \<open>u\<close> in every other face.
\<close>

definition model_collapse_edge ::
  "mesh \<Rightarrow> vkey \<Rightarrow> vkey \<Rightarrow> bool \<Rightarrow> vkey list option \<Rightarrow> error + mesh" where
  "model_collapse_edge m u v allow_boundary fx =
     (let fixed_set = (case fx of None \<Rightarrow> {} | Some keys \<Rightarrow> set keys);
          bnd = set (vertices_on_boundary m)
      in if u \<in> fixed_set \<or> v \<in> fixed_set then Inr m
         else if \<not> allow_boundary \<and> (u \<in> bnd \<or> v \<in> bnd) then Inr m
         else Inr (delete_vertex
                (m\<lparr>face := map (\<lambda>(k, vs). (k, map (\<lambda>x. if x = v then u else x) vs))
                              (filter (\<lambda>(k, vs). \<not> (u \<in> set vs \<and> v \<in> set vs)) (face m))\<rparr>)
                v))"

text \<open>
  Modelled from the spec: \<open>trimesh_swap_edge\<close> (same module). The spec's contract: it
  "flips the diagonal shared by the edge's two incident faces", and is a no-op on an edge
  with only one incident face; by the optimiser's docstring \<open>allow_boundary\<close> allows
  "boundary edges or edges connected to the boundary to be swapped". The triangles
  \<open>(u, v, c1)\<close> and \<open>(v, u, c2)\<close> become \<open>(u, c2, c1)\<close> and \<open>(v, c1, c2)\<close>.
\<close>

definition model_swap_edge :: "mesh \<Rightarrow> vkey \<Rightarrow> vkey \<Rightarrow> bool \<Rightarrow> error + mesh" where
  "model_swap_edge m u v allow_boundary =
     (case halfedge m u v of Inl e \<Rightarrow> Inl e | Inr fuv \<Rightarrow>
      case halfedge m v u of Inl e \<Rightarrow> Inl e | Inr fvu \<Rightarrow>
      (case (fuv, fvu) of
         (Some f1, Some f2) \<Rightarrow>
           if \<not> allow_boundary \<and>
              (u \<in> set (vertices_on_boundary m) \<or> v \<in> set (vertices_on_boundary m))
           then Inr m
           else
             (case getitem (face m) f1 of Inl e \<Rightarrow> Inl e | Inr face1 \<Rightarrow>
              case getitem (face m) f2 of Inl e \<Rightarrow> Inl e | Inr face2 \<Rightarrow>
              case py_index face1 u of Inl e \<Rightarrow> Inl e | Inr i1 \<Rightarrow>
              case py_index face2 v of Inl e \<Rightarrow> Inl e | Inr i2 \<Rightarrow>
              let c1 = item_before face1 i1; c2 = item_before face2 i2
              in Inr (replace_face (replace_face m f1 [u, c2, c1]) f2 [v, c1, c2]))
       | _ \<Rightarrow> Inr m))"

text \<open>
  Modelled from the spec: \<open>centroid(points)\<close> is the "arithmetic mean of a non-empty
  list of coordinates"; the empty list fails.
\<close>

definition centroid_points :: "xyz list \<Rightarrow> error + xyz" where
  "centroid_points ps =
     (if ps = [] then Inl ZeroDivisionError
      else Inr (sum_list (map fst ps) / real (length ps),
                sum_list (map (fst \<circ> snd) ps) / real (length ps),
                sum_list (map (snd \<circ> snd) ps) / real (length ps)))"

text \<open>The area of a triangle: half the length of the cross product of two sides.\<close>

definition area_triangle :: "xyz \<Rightarrow> xyz \<Rightarrow> xyz \<Rightarrow> real" where
  "area_triangle a b c =
     (case (a, b, c) of ((ax, ay, az), (bx, by, bz), (cx, cy, cz)) \<Rightarrow>
        (let ux = bx - ax; uy = by - ay; uz = bz - az;
             vx = cx - ax; vy = cy - ay; vz = cz - az;
             nx = uy * vz - uz * vy; ny = uz * vx - ux * vz; nz = ux * vy - uy * vx
         in sqrt (nx * nx + ny * ny + nz * nz) / 2))"

text \<open>
  Modelled from the spec: \<open>smooth_area\<close> is imported from \<open>compas.geometry\<close>, which is
  not under \<open>src/\<close>. The spec's contract: it performs the given number of "passes of
  area-weighted positional smoothing, leaving entries whose key is in \<open>fixed_set\<close>
  unchanged". In one pass every other vertex moves to the mean of the centroids of its
  incident triangles, weighted by their areas, all read from the coordinates the pass
  started with.
\<close>

definition weighted_centroid ::
  "(vkey \<times> xyz) list \<Rightarrow> (fkey \<times> vkey list) list \<Rightarrow> fkey \<Rightarrow> error + (real \<times> xyz)" where
  "weighted_centroid vs fs f =
     (case getitem fs f of Inl e \<Rightarrow> Inl e | Inr keys \<Rightarrow>
      case map_err (getitem vs) keys of Inl e \<Rightarrow> Inl e | Inr ps \<Rightarrow>
      case centroid_points ps of Inl e \<Rightarrow> Inl e | Inr c \<Rightarrow>
      (case ps of
         [a, b, d] \<Rightarrow> Inr (area_triangle a b d, c)
       | _ \<Rightarrow> Inl ValueError))"

definition smooth_vertex ::
  "(vkey \<times> xyz) list \<Rightarrow> (fkey \<times> vkey list) list \<Rightarrow> (vkey \<times> fkey option list) list \<Rightarrow>
   vkey set \<Rightarrow> vkey \<times> xyz \<Rightarrow> error + (vkey \<times> xyz)" where
  "smooth_vertex vs fs adjacency fixed_set kp =
     (case kp of (key, p) \<Rightarrow>
        if key \<in> fixed_set then Inr (key, p)
        else
          (case getitem adjacency key of Inl e \<Rightarrow> Inl e | Inr fos \<Rightarrow>
           case map_err (weighted_centroid vs fs) (concat (map (\<lambda>fo. case fo of None \<Rightarrow> [] | Some f \<Rightarrow> [f]) fos)) of
             Inl e \<Rightarrow> Inl e
           | Inr acs \<Rightarrow>
               (let A = sum_list (map fst acs)
                in if A = 0 then Inl ZeroDivisionError
                   else Inr (key,
                     (sum_list (map (\<lambda>(a, c). a * fst c) acs) / A,
                      sum_list (map (\<lambda>(a, c). a * fst (snd c)) acs) / A,
                      sum_list (map (\<lambda>(a, c). a * snd (snd c)) acs) / A)))))"

fun model_smooth_area ::
  "(vkey \<times> xyz) list \<Rightarrow> (fkey \<times> vkey list) list \<Rightarrow> (vkey \<times> fkey option list) list \<Rightarrow>
   vkey set \<Rightarrow> nat \<Rightarrow> error + (vkey \<times> xyz) list" where
  "model_smooth_area vs fs adjacency fixed_set 0 = Inr vs"
| "model_smooth_area vs fs adjacency fixed_set (Suc n) =
     (case map_err (smooth_vertex vs fs adjacency fixed_set) vs of
        Inl e \<Rightarrow> Inl e
      | Inr vs' \<Rightarrow> model_smooth_area vs' fs adjacency fixed_set n)"

text \<open>The four collaborators as modelled above.\<close>

definition modelled :: collaborators where
  "modelled =
     \<lparr>trimesh_split_edge = model_split_edge,
      trimesh_collapse_edge = model_collapse_edge,
      trimesh_swap_edge = model_swap_edge,
      smooth_area = model_smooth_area\<rparr>"

section \<open>Notions the statements use\<close>

text \<open>The endpoints of the edge a call works on; none for smoothing and the callback.\<close>

fun endpoints :: "call \<Rightarrow> vkey set" where
  "endpoints (SplitEdge u v a) = {u, v}"
| "endpoints (CollapseEdge u v a fx) = {u, v}"
| "endpoints (SwapEdge u v a) = {u, v}"
| "endpoints (SmoothArea b n) = {}"
| "endpoints (Callback k) = {}"

text \<open>
  A list of calls is exclusive from a set of vertices when no call has an endpoint in
  that set or among the endpoints of the calls before it.
\<close>

fun exclusive_from :: "vkey set \<Rightarrow> call list \<Rightarrow> bool" where
  "exclusive_from used [] = True"
| "exclusive_from used (c # cs) =
     (endpoints c \<inter> used = {} \<and> exclusive_from (used \<union> endpoints c) cs)"

text \<open>The calls made when a phase ends, whether it returns or raises.\<close>

definition calls_of :: "(mesh \<times> vkey set \<times> call list) outcome \<Rightarrow> call list" where
  "calls_of r = (case r of Inl (e, m, cs) \<Rightarrow> cs | Inr (m, visited, cs) \<Rightarrow> cs)"

text \<open>
  The thresholds as the spec words them, from the call's arguments and the longest edge
  of the mesh the call starts with.
\<close>

definition claimed_lmin :: "'a arguments \<Rightarrow> real" where
  "claimed_lmin A = (1 - tol A) * (4 / 5) * target A"

definition claimed_lmax :: "'a arguments \<Rightarrow> real" where
  "claimed_lmax A = (1 + tol A) * (4 / 3) * target A"

definition claimed_fac :: "'a arguments \<Rightarrow> real \<Rightarrow> real" where
  "claimed_fac A longest = (longest / 2) / target A"




text \<open>The state a round hands to its phase: \<open>count\<close> incremented, the snapshot taken.\<close>

definition entering_phase :: "nat \<Rightarrow> state \<Rightarrow> state" where
  "entering_phase k s0 =
     (if k mod 20 = 0
      then s0\<lparr>count := count s0 + 1, num_vertices_1 := Some (length (vertex (cur_mesh s0)))\<rparr>
      else s0\<lparr>count := count s0 + 1\<rparr>)"

text \<open>The state the loop starts with.\<close>

definition initial_state :: "mesh \<Rightarrow> state" where
  "initial_state m =
     \<lparr>cur_mesh = m, boundary = set (vertices_on_boundary m),
      count = 0, num_vertices_1 = None, calls = []\<rparr>"

text \<open>
  The state at the end of the phase of round \<open>k\<close> when the phase calls no operation.
\<close>

definition after_quiet_phase :: "nat \<Rightarrow> state \<Rightarrow> state" where
  "after_quiet_phase k s =
     (let s2 = entering_phase k s
      in if count s2 = 1 \<or> count s2 = 2 \<or> count s2 = 3 then s2 else s2\<lparr>count := 0\<rparr>)"

text \<open>
  The early-termination test as the spec words it: on a round with \<open>(k - 10) mod 20 = 0\<close>
  past half of \<open>kmax\<close>, the current vertex count over the count saved ten rounds
  earlier is within \<open>divergence\<close> of 1.
\<close>

definition claimed_stop :: "'a arguments \<Rightarrow> nat \<Rightarrow> nat \<Rightarrow> nat \<Rightarrow> bool" where
  "claimed_stop A k v_old v_now =
     ((int k - 10) mod 20 = 0 \<and> real k > real_of_int (kmax A) / 2 \<and>
      abs (1 - real v_now / real v_old) < divergence A)"

section \<open>Example meshes\<close>



text \<open>A single right triangle with sides 3, 4 and 5.\<close>

definition right_triangle :: mesh where
  "right_triangle =
     \<lparr>vertex = [(0, (0, 0, 0)), (1, (3, 0, 0)), (2, (0, 4, 0))],
      face = [(0, [0, 1, 2])],
      next_vkey = 3, next_fkey = 1\<rparr>"

text \<open>
  A call with target length 4 and 12 rounds, the tolerance and the divergence at their
  defaults, smoothing off, and a callback that only observes.
\<close>

definition observe :: "mesh \<Rightarrow> nat \<Rightarrow> unit \<Rightarrow> error + mesh" where
  "observe m k args = Inr m"

definition twelve_rounds :: "unit arguments" where
  "twelve_rounds =
     \<lparr>target = 4, kmax = 12, tol = 1 / 10, divergence = 1 / 100,
      allow_boundary_split = False, allow_boundary_swap = False,
      allow_boundary_collapse = False, smooth = False, fixed = None,
      callback = Some observe, callback_args = ()\<rparr>"

text \<open>
  A call with a single round (\<open>kmax = 1\<close>), target length 1/2, and boundary edges
  allowed to be split; and the right triangle with its hypotenuse split.
\<close>

definition split_once :: "unit arguments" where
  "split_once = twelve_rounds\<lparr>target := 1 / 2, kmax := 1, allow_boundary_split := True\<rparr>"

definition right_triangle_split :: mesh where
  "right_triangle_split =
     \<lparr>vertex = [(0, (0, 0, 0)), (1, (3, 0, 0)), (2, (0, 4, 0)), (3, (3 / 2, 2, 0))],
      face = [(0, [1, 3, 0]), (1, [3, 2, 0])],
      next_vkey = 4, next_fkey = 2\<rparr>"

text \<open>
  A right triangle with sides 28, 45 and 53, and what is left of it when the edge
  \<open>(0, 1)\<close> is collapsed onto vertex 0; a call with target length 40, 12 rounds,
  divergence 2/5, and boundary edges allowed to collapse.
\<close>

definition thin_triangle :: mesh where
  "thin_triangle =
     \<lparr>vertex = [(0, (0, 0, 0)), (1, (28, 0, 0)), (2, (0, 45, 0))],
      face = [(0, [0, 1, 2])],
      next_vkey = 3, next_fkey = 1\<rparr>"

definition thin_triangle_collapsed :: mesh where
  "thin_triangle_collapsed =
     \<lparr>vertex = [(0, (0, 0, 0)), (2, (0, 45, 0))], face = [], next_vkey = 3, next_fkey = 1\<rparr>"

definition until_collapse :: "unit arguments" where
  "until_collapse =
     \<lparr>target = 40, kmax = 12, tol = 1 / 10, divergence = 2 / 5,
      allow_boundary_split = False, allow_boundary_swap = False,
      allow_boundary_collapse = True, smooth = False, fixed = None,
      callback = Some observe, callback_args = ()\<rparr>"

text \<open>The state of the 12-round call on the right triangle when round 10 starts.\<close>

definition round_ten :: state where
  "round_ten =
     \<lparr>cur_mesh = right_triangle, boundary = {0, 1, 2}, count = 2, num_vertices_1 = Some 3,
      calls = [Callback 0, Callback 1, Callback 2, Callback 3, Callback 4, Callback 5,
               Callback 6, Callback 7, Callback 8, Callback 9]\<rparr>"

section \<open>Theorems\<close>

lemmas mesh_eval = halfedge_def all_halfedges_def cycle_pairs_def getitem_def vertex_degree_def
  halfedge_keys_def vertices_def vertices_on_boundary_def


subsection \<open>The dispatcher\<close>

text \<open>
  Claim C9. For every scheme name the dispatcher does not recognise, \<open>mesh_subdivide\<close>
  raises an error and produces no mesh: the outcome is the exception, no scheme function
  has run, and the caller's mesh is as it was.
\<close>

theorem mesh_subdivide_unsupported:
  assumes "scheme \<notin> recognised_schemes"
  shows "mesh_subdivide S mesh scheme options = (Inl NotImplementedError, mesh)"
  using assms by (simp add: mesh_subdivide_def recognised_schemes_def)

theorem mesh_subdivide_unsupported_witness:
  "''butterfly'' \<notin> recognised_schemes \<and>
   (\<forall>(S :: (nat list, nat) schemes) mesh options.
      mesh_subdivide S mesh ''butterfly'' options = (Inl NotImplementedError, mesh))"
proof -
  have h: "''butterfly'' \<notin> recognised_schemes"
    by (simp add: recognised_schemes_def)
  have "mesh_subdivide S mesh ''butterfly'' options = (Inl NotImplementedError, mesh)"
    for S :: "(nat list, nat) schemes" and mesh options
    using mesh_subdivide_unsupported [OF h] .
  with h show ?thesis by simp
qed

text \<open>
  Claim C10. The recognised scheme names are exactly \<open>tri\<close>, \<open>quad\<close>, \<open>corner\<close>,
  \<open>catmullclark\<close> and \<open>doosabin\<close>: each of the five is handed to its scheme function,
  every other name raises \<open>NotImplementedError\<close> in the dispatcher, and \<open>loop\<close> is such
  a name, whatever the mesh and the options (the module's \<open>trimesh_subdivide_loop\<close> is
  not reachable through the dispatcher).
\<close>

theorem mesh_subdivide_recognises_exactly:
  "recognised_schemes = {''tri'', ''quad'', ''corner'', ''catmullclark'', ''doosabin''} \<and>
   (scheme \<in> recognised_schemes \<longrightarrow>
      mesh_subdivide S mesh scheme options = scheme_function S scheme mesh options) \<and>
   (scheme \<notin> recognised_schemes \<longrightarrow>
      mesh_subdivide S mesh scheme options = (Inl NotImplementedError, mesh)) \<and>
   ''loop'' \<notin> recognised_schemes \<and>
   mesh_subdivide S mesh ''loop'' options = (Inl NotImplementedError, mesh)"
  by (simp add: mesh_subdivide_def recognised_schemes_def scheme_function_def)

theorem mesh_subdivide_recognises_exactly_witness:
  "''quad'' \<in> recognised_schemes \<and> ''loop'' \<notin> recognised_schemes \<and>
   (\<forall>(S :: (nat list, nat) schemes) mesh options.
      mesh_subdivide S mesh ''quad'' options = mesh_subdivide_quad S mesh options \<and>
      mesh_subdivide S mesh ''loop'' options = (Inl NotImplementedError, mesh))"
proof -
  have q: "''quad'' \<in> recognised_schemes" and l: "''loop'' \<notin> recognised_schemes"
    by (simp_all add: recognised_schemes_def)
  have f: "scheme_function S ''quad'' = mesh_subdivide_quad S" for S :: "(nat list, nat) schemes"
    by (simp add: scheme_function_def)
  have "mesh_subdivide S mesh ''quad'' options = mesh_subdivide_quad S mesh options \<and>
        mesh_subdivide S mesh ''loop'' options = (Inl NotImplementedError, mesh)"
    for S :: "(nat list, nat) schemes" and mesh options
    using q f mesh_subdivide_recognises_exactly [of "''quad''" S mesh options] by simp
  with q l show ?thesis by simp
qed


subsection \<open>The swap phase\<close>




subsection \<open>The split and collapse phases\<close>

lemma exclusive_from_mono: "exclusive_from B cs \<Longrightarrow> A \<subseteq> B \<Longrightarrow> exclusive_from A cs"
proof (induction cs arbitrary: A B)
  case Nil
  then show ?case by simp
next
  case (Cons c cs)
  have "exclusive_from (A \<union> endpoints c) cs"
    using Cons.IH [of "B \<union> endpoints c" "A \<union> endpoints c"] Cons.prems by auto
  then show ?case using Cons.prems by auto
qed

lemma split_edges_calls:
  "\<exists>new. calls_of (split_edges C thr allow es (m, visited, cs0)) = cs0 @ new \<and>
         exclusive_from visited new"
proof (induction es arbitrary: m visited cs0)
  case Nil
  then show ?case by (simp add: calls_of_def)
next
  case (Cons uv es)
  obtain u v where uv: "uv = (u, v)" by (cases uv)
  show ?case
  proof (cases "u \<in> visited \<or> v \<in> visited")
    case True
    then show ?thesis using Cons.IH [of m visited cs0] by (simp add: uv)
  next
    case False
    show ?thesis
    proof (cases "edge_length m u v")
      case (Inl e)
      then show ?thesis using False by (simp add: uv calls_of_def)
    next
      case (Inr l)
      show ?thesis
      proof (cases "l \<le> thr")
        case True
        then show ?thesis using False Inr Cons.IH [of m visited cs0] by (simp add: uv)
      next
        case big: False
        show ?thesis
        proof (cases "trimesh_split_edge C m u v allow")
          case (Inl e)
          then show ?thesis using False Inr big by (simp add: uv calls_of_def)
        next
          case m': (Inr m')
          obtain new where new:
            "calls_of (split_edges C thr allow es
               (m', insert v (insert u visited), cs0 @ [SplitEdge u v allow]))
             = (cs0 @ [SplitEdge u v allow]) @ new"
            "exclusive_from (insert v (insert u visited)) new"
            using Cons.IH by blast
          have "exclusive_from visited (SplitEdge u v allow # new)"
            using new(2) False by (simp add: Un_commute insert_commute)
          then show ?thesis using False Inr big m' new(1)
            by (intro exI [of _ "SplitEdge u v allow # new"]) (simp add: uv)
        qed
      qed
    qed
  qed
qed

lemma collapse_edges_calls:
  "\<exists>new. calls_of (collapse_edges C thr allow fx es (m, visited, cs0)) = cs0 @ new \<and>
         exclusive_from visited new"
proof (induction es arbitrary: m visited cs0)
  case Nil
  then show ?case by (simp add: calls_of_def)
next
  case (Cons uv es)
  obtain u v where uv: "uv = (u, v)" by (cases uv)
  show ?case
  proof (cases "u \<in> visited \<or> v \<in> visited")
    case True
    then show ?thesis using Cons.IH [of m visited cs0] by (simp add: uv)
  next
    case False
    show ?thesis
    proof (cases "edge_length m u v")
      case (Inl e)
      then show ?thesis using False by (simp add: uv calls_of_def)
    next
      case (Inr l)
      show ?thesis
      proof (cases "l \<ge> thr")
        case True
        then show ?thesis using False Inr Cons.IH [of m visited cs0] by (simp add: uv)
      next
        case small: False
        show ?thesis
        proof (cases "trimesh_collapse_edge C m u v allow fx")
          case (Inl e)
          then show ?thesis using False Inr small by (simp add: uv calls_of_def)
        next
          case m': (Inr m')
          show ?thesis
          proof (cases "halfedge_keys m' u")
            case (Inl e)
            then show ?thesis using False Inr small m' by (simp add: uv calls_of_def)
          next
            case nbrs: (Inr nbrs)
            obtain new where new:
              "calls_of (collapse_edges C thr allow fx es
                 (m', insert v (insert u visited) \<union> set nbrs, cs0 @ [CollapseEdge u v allow fx]))
               = (cs0 @ [CollapseEdge u v allow fx]) @ new"
              "exclusive_from (insert v (insert u visited) \<union> set nbrs) new"
              using Cons.IH by blast
            have "exclusive_from (visited \<union> {u, v}) new"
              by (rule exclusive_from_mono [OF new(2)]) auto
            then have "exclusive_from visited (CollapseEdge u v allow fx # new)"
              using False by simp
            then show ?thesis using False Inr small m' nbrs new(1)
              by (intro exI [of _ "CollapseEdge u v allow fx # new"]) (simp add: uv)
          qed
        qed
      qed
    qed
  qed
qed

text \<open>
  Claim C7. Within one split phase, and within one collapse phase, no two operations
  share an endpoint: the calls the phase adds to those made before it are exclusive, each
  call's endpoints being disjoint from the endpoints of every earlier call of the phase.
  Both phases start with an empty visited set, and the statement covers a phase that
  ends in a raise.
\<close>

theorem phase_operations_exclusive:
  "(\<exists>new. calls_of (split_edges C thr allow es (m, {}, cs0)) = cs0 @ new \<and>
          exclusive_from {} new) \<and>
   (\<exists>new. calls_of (collapse_edges C thr allow fx es (m, {}, cs0)) = cs0 @ new \<and>
          exclusive_from {} new)"
  using split_edges_calls [of C thr allow es m "{}" cs0]
    collapse_edges_calls [of C thr allow fx es m "{}" cs0]
  by simp


subsection \<open>The thresholds of a round\<close>





text \<open>
  Past the preamble the call is the run of its rounds, from the bounds and the ramp
  factor the preamble computes.
\<close>

lemma run_of_rounds:
  assumes "map_err (\<lambda>(u, v). edge_length m u v) (edges m) = Inr ls"
    and "py_max ls = Inr longest"
    and "target A \<noteq> 0"
  shows "trimesh_optimise_topology C A m =
      iterations C A (claimed_lmin A) (claimed_lmax A) (claimed_fac A longest)
        (real_of_int (kmax A) / 2) [0..<nat (kmax A)] (initial_state m)"
  using assms
  by (simp add: trimesh_optimise_topology_def claimed_lmin_def claimed_lmax_def
      claimed_fac_def initial_state_def)

lemma entering_phase_eq:
  "(if k mod 20 = 0
    then (s\<lparr>count := count s + 1\<rparr>)\<lparr>num_vertices_1 :=
           Some (length (vertex (cur_mesh (s\<lparr>count := count s + 1\<rparr>))))\<rparr>
    else s\<lparr>count := count s + 1\<rparr>) = entering_phase k s"
  by (simp add: entering_phase_def)



text \<open>The right triangle: its edges in mesh order, their lengths, its half-edges.\<close>

lemma rt_edges: "edges right_triangle = [(0, 1), (1, 2), (2, 0)]"
  by (simp add: edges_def right_triangle_def all_halfedges_def cycle_pairs_def)

lemma rt_lengths: "edge_length right_triangle 0 1 = Inr 3"
  "edge_length right_triangle 1 2 = Inr 5" "edge_length right_triangle 2 0 = Inr 4"
  by (simp_all add: edge_length_def vertex_coordinates_def getitem_def right_triangle_def
      distance_def)

lemma rt_halfedges: "halfedge right_triangle 0 1 = Inr (Some 0)"
  "halfedge right_triangle 1 0 = Inr None"
  "halfedge right_triangle 1 2 = Inr (Some 0)" "halfedge right_triangle 2 1 = Inr None"
  "halfedge right_triangle 2 0 = Inr (Some 0)" "halfedge right_triangle 0 2 = Inr None"
  by (simp_all add: right_triangle_def mesh_eval)

lemmas rt_facts = rt_lengths [unfolded One_nat_def] rt_halfedges [unfolded One_nat_def]

lemma rt_map_err:
  "map_err (\<lambda>(u, v). edge_length right_triangle u v) (edges right_triangle) = Inr [3, 5, 4]"
  by (simp add: rt_edges rt_facts)

lemma rt_boundary: "set (vertices_on_boundary right_triangle) = {0, 1, 2}"
  by (simp add: right_triangle_def mesh_eval) auto

lemma rt_nverts: "length (vertex right_triangle) = 3"
  by (simp add: right_triangle_def)

lemma twelve_rounds_values:
  "claimed_lmin twelve_rounds = 72 / 25" "claimed_lmax twelve_rounds = 88 / 15"
  "claimed_fac twelve_rounds 5 = 5 / 8" "real_of_int (kmax twelve_rounds) / 2 = 6"
  "nat (kmax twelve_rounds) = 12" "target twelve_rounds \<noteq> 0"
  by (simp_all add: claimed_lmin_def claimed_lmax_def claimed_fac_def twelve_rounds_def)



subsection \<open>A run in which no operation applies\<close>

lemma rt_split: "5 \<le> thr \<Longrightarrow>
  split_edges C thr allow (edges right_triangle) (right_triangle, {}, cs)
    = Inr (right_triangle, {}, cs)"
  by (simp add: rt_edges rt_facts)

lemma rt_collapse: "thr \<le> 3 \<Longrightarrow>
  collapse_edges C thr allow fx (edges right_triangle) (right_triangle, {}, cs)
    = Inr (right_triangle, {}, cs)"
  by (simp add: rt_edges rt_facts)

lemma rt_swap:
  "swap_edges C bnd allow (edges right_triangle) (right_triangle, {}, cs)
    = Inr (right_triangle, {}, cs)"
  by (simp add: rt_edges rt_facts)

lemma slack_nonneg:
  assumes "0 \<le> lmin" "0 \<le> lmax" "0 \<le> fac" "0 < kmax_start"
  shows "0 \<le> fst (slack lmin lmax fac kmax_start k) \<and> 0 \<le> snd (slack lmin lmax fac kmax_start k)"
  using assms by (auto simp: slack_def Let_def divide_le_eq)

lemma rt_phase:
  assumes "cur_mesh s = right_triangle" "5 \<le> lmax + dlmax" "lmin - dlmin \<le> 3"
  shows "phase C A lmin lmax dlmin dlmax s =
     Inr (if count s = 1 \<or> count s = 2 \<or> count s = 3 then s else s\<lparr>count := 0\<rparr>)"
  using assms by (simp add: phase_def rt_split rt_collapse rt_swap)

lemma rt_upto_phase:
  assumes "cur_mesh s = right_triangle"
  shows "upto_phase C twelve_rounds (72 / 25) (88 / 15) (5 / 8) 6 k s = Inr (after_quiet_phase k s)"
proof -
  have n: "0 \<le> fst (slack (72 / 25) (88 / 15) (5 / 8) 6 k) \<and>
           0 \<le> snd (slack (72 / 25) (88 / 15) (5 / 8) 6 k)"
    by (rule slack_nonneg) simp_all
  have m: "cur_mesh (entering_phase k s) = right_triangle"
    using assms by (simp add: entering_phase_def)
  show ?thesis
    unfolding upto_phase_def Let_def entering_phase_eq
    using n by (subst rt_phase [OF m]) (simp_all add: after_quiet_phase_def Let_def)
qed

lemma rt_iteration:
  assumes "cur_mesh s = right_triangle"
  shows "iteration C twelve_rounds (72 / 25) (88 / 15) (5 / 8) 6 k s =
     (if (int k - 10) mod 20 = 0
      then (case convergence (num_vertices_1 (after_quiet_phase k s)) 3 (1 / 100) k 6 of
              Inl e \<Rightarrow> Inl (e, right_triangle, calls (after_quiet_phase k s))
            | Inr True \<Rightarrow> Inr (True, after_quiet_phase k s)
            | Inr False \<Rightarrow>
                Inr (False, (after_quiet_phase k s)\<lparr>calls := calls (after_quiet_phase k s) @ [Callback k]\<rparr>))
      else Inr (False, (after_quiet_phase k s)\<lparr>calls := calls (after_quiet_phase k s) @ [Callback k]\<rparr>))"
proof -
  have m: "cur_mesh (after_quiet_phase k s) = right_triangle"
    using assms by (simp add: after_quiet_phase_def entering_phase_def Let_def)
  have cb: "invoke_callback twelve_rounds k t =
      Inr (t\<lparr>calls := calls t @ [Callback k]\<rparr>)" if "cur_mesh t = right_triangle" for t
    using that by (simp add: invoke_callback_def twelve_rounds_def observe_def)
  show ?thesis
    unfolding iteration_def rt_upto_phase [OF assms]
    by (simp add: m rt_nverts cb twelve_rounds_def [THEN arg_cong [where f = smooth]]
        twelve_rounds_def [THEN arg_cong [where f = divergence]] split: sum.splits bool.splits)
qed

lemma upt12: "[0..<12] = [0, 1, 2, 3, 4, 5, 6, 7, 8, 9, 10, 11]"
  by (simp add: upt_rec)


text \<open>
  Claim C8 (the code departs from it). The call with a callback, 12 rounds and target 4 on
  the right triangle: no edge is split, collapsed or swapped, so the vertex count stays 3
  and the test of round 10 (the first with \<open>(k - 10) % 20 == 0\<close>, and \<open>10 > 12 / 2\<close>)
  ends the loop. The loop has entered round 10 (\<open>count\<close> is 3, the swap phase has run),
  and the callback has been called for the rounds 0 to 9 only: the \<open>break\<close> of round 10
  leaves the loop before the callback of that round. This holds for every implementation
  of the collaborators.
\<close>

theorem no_callback_on_the_breaking_round:
  "trimesh_optimise_topology C twelve_rounds right_triangle =
     Inr \<lparr>cur_mesh = right_triangle, boundary = {0, 1, 2}, count = 3,
          num_vertices_1 = Some 3,
          calls = [Callback 0, Callback 1, Callback 2, Callback 3, Callback 4, Callback 5,
                   Callback 6, Callback 7, Callback 8, Callback 9]\<rparr>"
proof -
  have mx: "py_max [3, 5, 4] = Inr 5"
    by (simp add: py_max_def)
  have "trimesh_optimise_topology C twelve_rounds right_triangle =
      iterations C twelve_rounds (72 / 25) (88 / 15) (5 / 8) 6 [0..<12]
        (initial_state right_triangle)"
    using run_of_rounds [OF rt_map_err mx twelve_rounds_values(6), of C]
    by (simp add: twelve_rounds_values)
  then show ?thesis
    unfolding upt12
    by (simp add: rt_iteration initial_state_def after_quiet_phase_def entering_phase_def
        convergence_def rt_boundary rt_nverts Let_def)
qed


subsection \<open>The configuration is not checked\<close>

lemma rt_model_split: "model_split_edge right_triangle (Suc 0) 2 True = Inr right_triangle_split"
  by (simp add: model_split_edge_def mesh_eval vertex_coordinates_def add_vertex_def
      midpoint_def split_triangle_def add_face_def replace_face_def item_before_def
      right_triangle_def right_triangle_split_def)


text \<open>
  Claim C5 as stated fails: with \<open>kmax = 1\<close> (less than 2), target 1/2 and boundary
  splits allowed, the call on the right triangle raises nothing; its single round splits
  the hypotenuse \<open>(1, 2)\<close>, longer than the threshold 22/5, and calls the callback.
\<close>

theorem configuration_unchecked_counterexample:
  "kmax split_once < 2 \<and>
   trimesh_optimise_topology modelled split_once right_triangle =
     Inr \<lparr>cur_mesh = right_triangle_split, boundary = {0, 1, 2}, count = 1,
          num_vertices_1 = Some 3, calls = [SplitEdge 1 2 True, Callback 0]\<rparr>"
proof -
  have mx: "py_max [3, 5, 4] = Inr 5"
    by (simp add: py_max_def)
  have t: "target split_once \<noteq> 0"
    by (simp add: split_once_def twelve_rounds_def)
  have vals: "claimed_lmin split_once = 9 / 25" "claimed_lmax split_once = 11 / 15"
    "claimed_fac split_once 5 = 5" "real_of_int (kmax split_once) / 2 = 1 / 2"
    "nat (kmax split_once) = 1" "kmax split_once < 2"
    by (simp_all add: claimed_lmin_def claimed_lmax_def claimed_fac_def split_once_def
        twelve_rounds_def)
  have sel: "allow_boundary_split split_once = True" "smooth split_once = False"
    "callback split_once = Some observe"
    by (simp_all add: split_once_def twelve_rounds_def)
  have sp: "split_edges modelled (22 / 5) True (edges right_triangle) (right_triangle, {}, [])
      = Inr (right_triangle_split, {2, Suc 0}, [SplitEdge (Suc 0) 2 True])"
    by (simp add: rt_edges rt_facts modelled_def rt_model_split)
  have it: "iteration modelled split_once (9 / 25) (11 / 15) 5 (1 / 2) 0
      (initial_state right_triangle) =
      Inr (False, \<lparr>cur_mesh = right_triangle_split, boundary = {0, 1, 2}, count = 1,
          num_vertices_1 = Some 3, calls = [SplitEdge 1 2 True, Callback 0]\<rparr>)"
    by (simp add: iteration_def upto_phase_def slack_def phase_def initial_state_def sel sp
        invoke_callback_def observe_def rt_boundary rt_nverts Let_def)
  have "trimesh_optimise_topology modelled split_once right_triangle =
      iterations modelled split_once (9 / 25) (11 / 15) 5 (1 / 2) [0..<1]
        (initial_state right_triangle)"
    using run_of_rounds [OF rt_map_err mx t, of modelled] by (simp add: vals)
  then show ?thesis
    using vals(6) by (simp add: it)
qed


text \<open>
  Claim C5, amended. The optimiser does not check its configuration. On a mesh whose edge
  lengths can be read and that has an edge: with target 0 the call raises
  \<open>ZeroDivisionError\<close> where it computes the ramp factor, the mesh as it was and no call
  made; with any other target, whatever \<open>tol\<close> and \<open>kmax\<close> are, nothing is raised
  before the rounds, and the call is the run of its rounds \<open>0, ..., kmax - 1\<close>; there is
  none when \<open>kmax\<close> is 0 or negative, and the call then returns with the mesh as it was.
\<close>

theorem configuration_unchecked:
  assumes "map_err (\<lambda>(u, v). edge_length m u v) (edges m) = Inr ls"
    and "py_max ls = Inr longest"
  shows "(target A = 0 \<longrightarrow> trimesh_optimise_topology C A m = Inl (ZeroDivisionError, m, [])) \<and>
    (target A \<noteq> 0 \<longrightarrow>
       trimesh_optimise_topology C A m =
         iterations C A (claimed_lmin A) (claimed_lmax A) (claimed_fac A longest)
           (real_of_int (kmax A) / 2) [0..<nat (kmax A)] (initial_state m)) \<and>
    (target A \<noteq> 0 \<and> kmax A \<le> 0 \<longrightarrow>
       trimesh_optimise_topology C A m = Inr (initial_state m))"
proof -
  have z: "target A = 0 \<longrightarrow> trimesh_optimise_topology C A m = Inl (ZeroDivisionError, m, [])"
    using assms by (simp add: trimesh_optimise_topology_def)
  have r: "target A \<noteq> 0 \<longrightarrow>
       trimesh_optimise_topology C A m =
         iterations C A (claimed_lmin A) (claimed_lmax A) (claimed_fac A longest)
           (real_of_int (kmax A) / 2) [0..<nat (kmax A)] (initial_state m)"
    using run_of_rounds [OF assms, of A C] by simp
  have n: "target A \<noteq> 0 \<and> kmax A \<le> 0 \<longrightarrow>
       trimesh_optimise_topology C A m = Inr (initial_state m)"
    using r by simp
  show ?thesis
    using z r n by blast
qed

text \<open>
  The theorem at the right triangle: target 0 raises before any call; \<open>kmax = 0\<close>
  returns at once; the tolerance 2, outside \<open>[0, 1)\<close>, is not refused.
\<close>

theorem configuration_unchecked_witness:
  "map_err (\<lambda>(u, v). edge_length right_triangle u v) (edges right_triangle) = Inr [3, 5, 4] \<and>
   py_max [3, 5, 4] = Inr 5 \<and>
   (\<forall>C. trimesh_optimise_topology C (twelve_rounds\<lparr>target := 0\<rparr>) right_triangle =
         Inl (ZeroDivisionError, right_triangle, [])) \<and>
   (\<forall>C. trimesh_optimise_topology C (twelve_rounds\<lparr>kmax := 0\<rparr>) right_triangle =
         Inr (initial_state right_triangle)) \<and>
   (\<forall>C. trimesh_optimise_topology C (twelve_rounds\<lparr>tol := 2\<rparr>) right_triangle =
         iterations C (twelve_rounds\<lparr>tol := 2\<rparr>) (- (16 / 5)) 16 (5 / 8) 6 [0..<12]
           (initial_state right_triangle))"
proof -
  have mx: "py_max [3, 5, 4] = Inr 5"
    by (simp add: py_max_def)
  have a: "trimesh_optimise_topology C (twelve_rounds\<lparr>target := 0\<rparr>) right_triangle =
         Inl (ZeroDivisionError, right_triangle, [])" for C
    using configuration_unchecked [OF rt_map_err mx, of "twelve_rounds\<lparr>target := 0\<rparr>" C]
    by simp
  have b: "trimesh_optimise_topology C (twelve_rounds\<lparr>kmax := 0\<rparr>) right_triangle =
         Inr (initial_state right_triangle)" for C
    using configuration_unchecked [OF rt_map_err mx, of "twelve_rounds\<lparr>kmax := 0\<rparr>" C]
    by (simp add: twelve_rounds_def)
  have c: "trimesh_optimise_topology C (twelve_rounds\<lparr>tol := 2\<rparr>) right_triangle =
         iterations C (twelve_rounds\<lparr>tol := 2\<rparr>) (- (16 / 5)) 16 (5 / 8) 6 [0..<12]
           (initial_state right_triangle)" for C
    using configuration_unchecked [OF rt_map_err mx, of "twelve_rounds\<lparr>tol := 2\<rparr>" C]
    by (simp add: twelve_rounds_def claimed_lmin_def claimed_lmax_def claimed_fac_def)
  show ?thesis
    by (intro conjI allI rt_map_err mx a b c)
qed


subsection \<open>Early termination\<close>

lemma phase_keeps_snapshot:
  assumes "phase C A lmin lmax dlmin dlmax s = Inr s'"
  shows "num_vertices_1 s' = num_vertices_1 s"
  using assms by (auto simp: phase_def split: if_splits sum.splits prod.splits)


lemma smoothen_keeps_snapshot:
  assumes "smoothen C s = Inr s'"
  shows "num_vertices_1 s' = num_vertices_1 s"
  using assms by (auto simp: smoothen_def Let_def split: sum.splits prod.splits)

lemma callback_keeps_snapshot:
  assumes "invoke_callback A k s = Inr s'"
  shows "num_vertices_1 s' = num_vertices_1 s"
  using assms by (auto simp: invoke_callback_def split: option.splits sum.splits)

lemma upto_phase_snapshot:
  assumes "upto_phase C A lmin lmax fac kmax_start k s0 = Inr s3"
  shows "num_vertices_1 s3 =
           (if k mod 20 = 0 then Some (length (vertex (cur_mesh s0))) else num_vertices_1 s0)"
  using phase_keeps_snapshot assms
  unfolding upto_phase_def Let_def by fastforce

lemma iteration_snapshot:
  assumes "iteration C A lmin lmax fac kmax_start k s0 = Inr (stop, s')"
  shows "num_vertices_1 s' =
           (if k mod 20 = 0 then Some (length (vertex (cur_mesh s0))) else num_vertices_1 s0)"
proof (cases "upto_phase C A lmin lmax fac kmax_start k s0")
  case (Inl x)
  then show ?thesis using assms by (simp add: iteration_def)
next
  case (Inr s3)
  note u = upto_phase_snapshot [OF Inr]
  show ?thesis
  proof (cases stop)
    case True
    then have "s' = s3"
      using assms Inr by (auto simp: iteration_def split: sum.splits bool.splits if_splits)
    then show ?thesis using u by simp
  next
    case False
    then obtain s4 where s4: "(if smooth A then smoothen C s3 else Inr s3) = Inr s4"
      and s5: "invoke_callback A k s4 = Inr s'"
      using assms Inr by (auto simp: iteration_def split: sum.splits bool.splits if_splits)
    have "num_vertices_1 s4 = num_vertices_1 s3"
      using s4 smoothen_keeps_snapshot by (auto split: if_splits)
    then show ?thesis
      using callback_keeps_snapshot [OF s5] u by simp
  qed
qed

lemma iterations_keep_snapshot:
  assumes "iterations C A lmin lmax fac kmax_start js s = Inr s'"
    and "\<forall>j \<in> set js. j mod 20 \<noteq> 0"
  shows "num_vertices_1 s' = num_vertices_1 s"
  using assms
proof (induction js arbitrary: s)
  case Nil
  then show ?case by simp
next
  case (Cons j js)
  from Cons.prems(1) obtain stop t where it: "iteration C A lmin lmax fac kmax_start j s = Inr (stop, t)"
    and rest: "(if stop then Inr t else iterations C A lmin lmax fac kmax_start js t) = Inr s'"
    by (auto split: sum.splits prod.splits)
  have t: "num_vertices_1 t = num_vertices_1 s"
    using iteration_snapshot [OF it] Cons.prems(2) by simp
  show ?case
  proof (cases stop)
    case True
    then show ?thesis using rest t by simp
  next
    case False
    then show ?thesis using rest t Cons.IH [of t] Cons.prems(2) by simp
  qed
qed

text \<open>Only a round with (k - 10) mod 20 = 0 can end the loop.\<close>

lemma only_test_rounds_stop:
  assumes "(int k - 10) mod 20 \<noteq> 0"
  shows "iteration C A lmin lmax fac kmax_start k s \<noteq> Inr (True, t)"
  using assms by (auto simp: iteration_def split: sum.splits bool.splits)

lemma test_round_mod: "(int k - 10) mod 20 = 0 \<Longrightarrow> k mod 20 = 10"
  by presburger

lemma test_round_ge: "k mod 20 = 10 \<Longrightarrow> (10::nat) \<le> k"
  by presburger

lemma test_round_back: "k mod 20 = 10 \<Longrightarrow> (k - 10) mod 20 = (0::nat)"
  by presburger

lemma snapshot_round_no_test: "j mod 20 = (0::nat) \<Longrightarrow> (int j - 10) mod 20 \<noteq> 0"
  by presburger

lemma between_rounds:
  assumes "k mod 20 = 10" "k - 9 \<le> j" "j < k"
  shows "j mod 20 \<noteq> (0::nat)"
proof -
  define q where "q = k div 20"
  have k: "k = 20 * q + 10"
    using div_mult_mod_eq [of k 20] assms(1) by (simp add: q_def)
  define r where "r = j - 20 * q"
  have j: "j = 20 * q + r" "1 \<le> r" "r \<le> 9"
    using k assms(2,3) by (simp_all add: r_def)
  have "j mod 20 = r"
    using j(3) by (simp add: j(1))
  then show ?thesis
    using j(2) by simp
qed

lemma ten_rounds_list: "(10::nat) \<le> k \<Longrightarrow> [k - 10..<k] = (k - 10) # [k - 9..<k]"
proof -
  assume a: "10 \<le> k"
  then have "k - 10 < k" "Suc (k - 10) = k - 9"
    by arith+
  then show ?thesis
    using upt_conv_Cons [of "k - 10" k] by simp
qed

text \<open>
  The ten rounds before a test round: the first of them takes the snapshot, none of them
  can end the loop, and the nine others leave the snapshot alone.
\<close>

lemma ten_rounds_before:
  assumes "(int k - 10) mod 20 = 0"
    and "iterations C A lmin lmax fac kmax_start [k - 10..<k] sa = Inr s0"
  shows "num_vertices_1 s0 = Some (length (vertex (cur_mesh sa)))"
proof -
  note km = test_round_mod [OF assms(1)]
  note l = ten_rounds_list [OF test_round_ge [OF km]]
  note k0 = test_round_back [OF km]
  note nt = snapshot_round_no_test [OF k0]
  from assms(2) obtain stop t where
    it: "iteration C A lmin lmax fac kmax_start (k - 10) sa = Inr (stop, t)"
    and rest: "(if stop then Inr t else iterations C A lmin lmax fac kmax_start [k - 9..<k] t) = Inr s0"
    unfolding l by (auto split: sum.splits prod.splits)
  have "\<not> stop"
    using only_test_rounds_stop [OF nt, of C A lmin lmax fac kmax_start sa t] it by (cases stop) auto
  then have r: "iterations C A lmin lmax fac kmax_start [k - 9..<k] t = Inr s0"
    using rest by simp
  have t: "num_vertices_1 t = Some (length (vertex (cur_mesh sa)))"
    using iteration_snapshot [OF it] k0 by simp
  have "\<forall>j \<in> set [k - 9..<k]. j mod 20 \<noteq> 0"
    using between_rounds [OF km] by simp
  then show ?thesis
    using iterations_keep_snapshot [OF r] t by simp
qed


text \<open>
  Claim C2, amended. Let round \<open>k\<close> be a test round, \<open>(k - 10) mod 20 = 0\<close>, reached by
  running the rounds \<open>k - 10\<close> to \<open>k - 1\<close> from a state whose mesh has \<open>V_old\<close>
  vertices, and let \<open>V_now\<close> be the vertex count when the phase of round \<open>k\<close> has run.
  Round \<open>k - 10\<close> saves \<open>V_old\<close> in \<open>num_vertices_1\<close>; none of the ten rounds can end
  the loop, and neither their phases nor their smoothing steps nor their callbacks touch
  the saved count, so round \<open>k\<close> still finds \<open>V_old\<close> there. Round \<open>k\<close> ends the loop
  exactly when \<open>k\<close> is greater than \<open>kmax / 2\<close> and \<open>|1 - V_old / V_now| < divergence\<close>:
  the quotient is the saved count over the current one. The round that ends the loop leaves
  it at once, with the state the phase produced, and no later round runs; a round that is
  not a test round never ends the loop.
\<close>

theorem early_termination_test:
  assumes "(int k - 10) mod 20 = 0"
    and "iterations C A lmin lmax fac kmax_start [k - 10..<k] sa = Inr s0"
    and "length (vertex (cur_mesh sa)) = v_old"
    and "upto_phase C A lmin lmax fac kmax_start k s0 = Inr s3"
    and "length (vertex (cur_mesh s3)) = v_now"
    and "v_now \<noteq> 0"
  shows "((\<exists>s'. iteration C A lmin lmax fac kmax_start k s0 = Inr (True, s')) \<longleftrightarrow>
           (real k > kmax_start \<and> abs (1 - real v_old / real v_now) < divergence A)) \<and>
         (\<forall>s'. iteration C A lmin lmax fac kmax_start k s0 = Inr (True, s') \<longrightarrow>
            s' = s3 \<and> iterations C A lmin lmax fac kmax_start (k # ks) s0 = Inr s3) \<and>
         num_vertices_1 s3 = Some v_old \<and>
         ((int j - 10) mod 20 \<noteq> 0 \<longrightarrow> iteration C A lmin lmax fac kmax_start j s \<noteq> Inr (True, t))"
proof -
  have k20: "k mod 20 \<noteq> 0"
    using test_round_mod [OF assms(1)] by simp
  have old: "num_vertices_1 s3 = Some v_old"
    using upto_phase_snapshot [OF assms(4)] ten_rounds_before [OF assms(1,2)] assms(3) k20
    by simp
  have a: "(\<exists>s'. iteration C A lmin lmax fac kmax_start k s0 = Inr (True, s')) \<longleftrightarrow>
           (real k > kmax_start \<and> abs (1 - real v_old / real v_now) < divergence A)"
    using assms(1,4,5,6) old
    by (auto simp: iteration_def convergence_def split: sum.splits bool.splits if_splits)
  have b: "s' = s3 \<and> iterations C A lmin lmax fac kmax_start (k # ks) s0 = Inr s3"
    if "iteration C A lmin lmax fac kmax_start k s0 = Inr (True, s')" for s'
  proof -
    have "s' = s3"
      using that assms(4)
      by (auto simp: iteration_def split: sum.splits bool.splits if_splits)
    then show ?thesis using that by simp
  qed
  show ?thesis
    using a b old only_test_rounds_stop [of j C A lmin lmax fac kmax_start s t] by blast
qed


text \<open>The thin triangle: its edges, their lengths, and the rounds that change nothing.\<close>

lemma thin_edges: "edges thin_triangle = [(0, 1), (1, 2), (2, 0)]"
  by (simp add: edges_def thin_triangle_def all_halfedges_def cycle_pairs_def)

lemma thin_lengths: "edge_length thin_triangle 0 1 = Inr 28"
  "edge_length thin_triangle 1 2 = Inr 53" "edge_length thin_triangle 2 0 = Inr 45"
  by (simp_all add: edge_length_def vertex_coordinates_def getitem_def thin_triangle_def
      distance_def)

lemma thin_halfedges: "halfedge thin_triangle 0 1 = Inr (Some 0)"
  "halfedge thin_triangle 1 0 = Inr None"
  "halfedge thin_triangle 1 2 = Inr (Some 0)" "halfedge thin_triangle 2 1 = Inr None"
  "halfedge thin_triangle 2 0 = Inr (Some 0)" "halfedge thin_triangle 0 2 = Inr None"
  by (simp_all add: thin_triangle_def mesh_eval)

lemmas thin_facts = thin_lengths [unfolded One_nat_def] thin_halfedges [unfolded One_nat_def]

lemma thin_map_err:
  "map_err (\<lambda>(u, v). edge_length thin_triangle u v) (edges thin_triangle) = Inr [28, 53, 45]"
  by (simp add: thin_edges thin_facts)

lemma thin_boundary: "set (vertices_on_boundary thin_triangle) = {0, 1, 2}"
  by (simp add: thin_triangle_def mesh_eval) auto

lemma thin_nverts: "length (vertex thin_triangle) = 3"
  by (simp add: thin_triangle_def)

lemma thin_split: "53 \<le> thr \<Longrightarrow>
  split_edges C thr allow (edges thin_triangle) (thin_triangle, {}, cs)
    = Inr (thin_triangle, {}, cs)"
  by (simp add: thin_edges thin_facts)

lemma thin_collapse: "thr \<le> 28 \<Longrightarrow>
  collapse_edges C thr allow fx (edges thin_triangle) (thin_triangle, {}, cs)
    = Inr (thin_triangle, {}, cs)"
  by (simp add: thin_edges thin_facts)

lemma thin_swap:
  "swap_edges C bnd allow (edges thin_triangle) (thin_triangle, {}, cs)
    = Inr (thin_triangle, {}, cs)"
  by (simp add: thin_edges thin_facts)

lemma thin_model_collapse:
  "model_collapse_edge thin_triangle 0 (Suc 0) True None = Inr thin_triangle_collapsed"
  by (simp add: model_collapse_edge_def delete_vertex_def thin_triangle_def
      thin_triangle_collapsed_def)

lemma collapsed_keys: "halfedge_keys thin_triangle_collapsed 0 = Inr []"
  by (simp add: thin_triangle_collapsed_def mesh_eval)

lemma collapsed_edges: "edges thin_triangle_collapsed = []"
  by (simp add: edges_def thin_triangle_collapsed_def all_halfedges_def)

lemma collapsed_nverts: "length (vertex thin_triangle_collapsed) = 2"
  by (simp add: thin_triangle_collapsed_def)

lemma thin_collapse_9:
  "collapse_edges modelled (144 / 5) True None (edges thin_triangle) (thin_triangle, {}, cs)
    = Inr (thin_triangle_collapsed, {Suc 0, 0}, cs @ [CollapseEdge 0 (Suc 0) True None])"
  by (simp add: thin_edges thin_facts modelled_def thin_model_collapse collapsed_keys)

lemma until_collapse_values:
  "claimed_lmin until_collapse = 144 / 5" "claimed_lmax until_collapse = 176 / 3"
  "claimed_fac until_collapse 53 = 53 / 80" "real_of_int (kmax until_collapse) / 2 = 6"
  "nat (kmax until_collapse) = 12" "target until_collapse \<noteq> 0"
  by (simp_all add: claimed_lmin_def claimed_lmax_def claimed_fac_def until_collapse_def)

lemma until_collapse_fields:
  "allow_boundary_split until_collapse = False" "allow_boundary_collapse until_collapse = True"
  "allow_boundary_swap until_collapse = False" "smooth until_collapse = False"
  "fixed until_collapse = None" "callback until_collapse = Some observe"
  "divergence until_collapse = 2 / 5"
  by (simp_all add: until_collapse_def)

text \<open>A round on the thin triangle before round 6 changes nothing.\<close>

lemma thin_quiet_phase:
  assumes "cur_mesh s = thin_triangle" "k \<le> 5 \<or> count s \<noteq> 2"
  shows "phase C until_collapse (144 / 5) (176 / 3)
           (fst (slack (144 / 5) (176 / 3) (53 / 80) 6 k))
           (snd (slack (144 / 5) (176 / 3) (53 / 80) 6 k)) s =
     Inr (if count s = 1 \<or> count s = 2 \<or> count s = 3 then s else s\<lparr>count := 0\<rparr>)"
proof -
  have up: "53 \<le> 176 / 3 + snd (slack (144 / 5) (176 / 3) (53 / 80) 6 k)"
  proof (cases "k \<le> 6")
    case True
    then have "real k \<le> 6" by simp
    then have "53 \<le> 176 / 3 + 176 / 3 * (53 / 80 * (1 - real k / 6))"
      by (simp add: field_simps)
    then show ?thesis using True unfolding slack_def Let_def by simp
  next
    case False
    then show ?thesis by (simp add: slack_def Let_def)
  qed
  have lo: "144 / 5 - fst (slack (144 / 5) (176 / 3) (53 / 80) 6 k) \<le> 28" if "k \<le> 5"
  proof -
    have "real k \<le> 5" using that by simp
    then have "144 / 5 - 144 / 5 * (53 / 80 * (1 - real k / 6)) \<le> 28"
      by (simp add: field_simps)
    then show ?thesis using that unfolding slack_def Let_def by simp
  qed
  show ?thesis
    using assms up lo
    by (auto simp: phase_def thin_split thin_collapse thin_swap)
qed


lemma thin_upto_phase:
  assumes "cur_mesh s = thin_triangle" "k \<le> 5 \<or> count s \<noteq> 1"
  shows "upto_phase C until_collapse (144 / 5) (176 / 3) (53 / 80) 6 k s
           = Inr (after_quiet_phase k s)"
proof -
  have m: "cur_mesh (entering_phase k s) = thin_triangle"
    using assms by (simp add: entering_phase_def)
  have c: "k \<le> 5 \<or> count (entering_phase k s) \<noteq> 2"
    using assms by (auto simp: entering_phase_def)
  show ?thesis
    unfolding upto_phase_def Let_def entering_phase_eq
    by (subst thin_quiet_phase [OF m c]) (simp add: after_quiet_phase_def Let_def)
qed

lemma thin_iteration:
  assumes "cur_mesh s = thin_triangle" "k \<le> 5 \<or> count s \<noteq> 1" "(int k - 10) mod 20 \<noteq> 0"
  shows "iteration C until_collapse (144 / 5) (176 / 3) (53 / 80) 6 k s =
     Inr (False, (after_quiet_phase k s)\<lparr>calls := calls (after_quiet_phase k s) @ [Callback k]\<rparr>)"
  unfolding iteration_def thin_upto_phase [OF assms(1,2)]
  using assms(3)
  by (simp add: until_collapse_fields invoke_callback_def observe_def)

lemma thin_round_9:
  "iteration modelled until_collapse (144 / 5) (176 / 3) (53 / 80) 6 9
     \<lparr>cur_mesh = thin_triangle, boundary = {0, 1, 2}, count = 1, num_vertices_1 = Some 3,
      calls = cs\<rparr> =
   Inr (False, \<lparr>cur_mesh = thin_triangle_collapsed, boundary = {0, 1, 2}, count = 2,
      num_vertices_1 = Some 3, calls = cs @ [CollapseEdge 0 1 True None, Callback 9]\<rparr>)"
  by (simp add: iteration_def upto_phase_def slack_def phase_def until_collapse_fields
      thin_collapse_9 invoke_callback_def observe_def Let_def)

lemma thin_round_10:
  "iteration modelled until_collapse (144 / 5) (176 / 3) (53 / 80) 6 10
     \<lparr>cur_mesh = thin_triangle_collapsed, boundary = {0, 1, 2}, count = 2,
      num_vertices_1 = Some 3, calls = cs\<rparr> =
   Inr (False, \<lparr>cur_mesh = thin_triangle_collapsed, boundary = {0, 1, 2}, count = 3,
      num_vertices_1 = Some 3, calls = cs @ [Callback 10]\<rparr>)"
  by (simp add: iteration_def upto_phase_def slack_def phase_def until_collapse_fields
      collapsed_edges collapsed_nverts convergence_def invoke_callback_def observe_def Let_def)

lemma thin_round_11:
  "iteration modelled until_collapse (144 / 5) (176 / 3) (53 / 80) 6 11
     \<lparr>cur_mesh = thin_triangle_collapsed, boundary = {0, 1, 2}, count = 3,
      num_vertices_1 = Some 3, calls = cs\<rparr> =
   Inr (False, \<lparr>cur_mesh = thin_triangle_collapsed, boundary = {0, 1, 2}, count = 0,
      num_vertices_1 = Some 3, calls = cs @ [Callback 11]\<rparr>)"
  by (simp add: iteration_def upto_phase_def slack_def phase_def until_collapse_fields
      invoke_callback_def observe_def Let_def)


lemma upt10: "[0..<10] = [0, 1, 2, 3, 4, 5, 6, 7, 8, 9]"
  by (simp add: upt_rec)

lemma rt_ten_rounds:
  "iterations C twelve_rounds (72 / 25) (88 / 15) (5 / 8) 6 [0..<10]
     (initial_state right_triangle) = Inr round_ten"
  unfolding upt10
  by (simp add: rt_iteration initial_state_def after_quiet_phase_def entering_phase_def
      rt_boundary rt_nverts round_ten_def Let_def)

lemma thin_ten_rounds:
  "iterations modelled until_collapse (144 / 5) (176 / 3) (53 / 80) 6 [0..<10]
     (initial_state thin_triangle) =
   Inr \<lparr>cur_mesh = thin_triangle_collapsed, boundary = {0, 1, 2}, count = 2,
        num_vertices_1 = Some 3,
        calls = [Callback 0, Callback 1, Callback 2, Callback 3, Callback 4, Callback 5,
                 Callback 6, Callback 7, Callback 8, CollapseEdge 0 1 True None,
                 Callback 9]\<rparr>"
  unfolding upt10
  by (simp add: thin_iteration initial_state_def after_quiet_phase_def entering_phase_def
      thin_boundary thin_nverts thin_round_9 [unfolded One_nat_def] Let_def)

lemma thin_phase_10:
  "upto_phase modelled until_collapse (144 / 5) (176 / 3) (53 / 80) 6 10
     \<lparr>cur_mesh = thin_triangle_collapsed, boundary = {0, 1, 2}, count = 2,
      num_vertices_1 = Some 3, calls = cs\<rparr> =
   Inr \<lparr>cur_mesh = thin_triangle_collapsed, boundary = {0, 1, 2}, count = 3,
      num_vertices_1 = Some 3, calls = cs\<rparr>"
  by (simp add: upto_phase_def slack_def phase_def until_collapse_fields
      collapsed_edges Let_def)


text \<open>
  The theorem at round 10 of two 12-round calls, each run from its initial state through
  the rounds 0 to 9. On the right triangle both counts are 3, \<open>|1 - 3 / 3| < 1 / 100\<close> and
  \<open>10 > 6\<close>: the round ends the loop. On the thin triangle round 0 saves the count 3 and
  round 9 collapses an edge, so round 10 compares the saved 3 with the current 2:
  \<open>|1 - 3 / 2|\<close> is not below 2/5 and the round does not end the loop, although
  \<open>|1 - 2 / 3|\<close> is below 2/5.
\<close>

theorem early_termination_test_witness:
  "(\<forall>C. (int 10 - 10) mod 20 = 0 \<and>
      iterations C twelve_rounds (72 / 25) (88 / 15) (5 / 8) 6 [10 - 10..<10]
        (initial_state right_triangle) = Inr round_ten \<and>
      length (vertex (cur_mesh (initial_state right_triangle))) = 3 \<and>
      upto_phase C twelve_rounds (72 / 25) (88 / 15) (5 / 8) 6 10 round_ten
        = Inr (round_ten\<lparr>count := 3\<rparr>) \<and>
      length (vertex (cur_mesh (round_ten\<lparr>count := 3\<rparr>))) = 3 \<and>
      (\<exists>s'. iteration C twelve_rounds (72 / 25) (88 / 15) (5 / 8) 6 10 round_ten
              = Inr (True, s')) \<and>
      real 10 > 6 \<and> abs (1 - real 3 / real 3) < divergence twelve_rounds) \<and>
   iterations modelled until_collapse (144 / 5) (176 / 3) (53 / 80) 6 [10 - 10..<10]
     (initial_state thin_triangle) =
     Inr \<lparr>cur_mesh = thin_triangle_collapsed, boundary = {0, 1, 2}, count = 2,
          num_vertices_1 = Some 3,
          calls = [Callback 0, Callback 1, Callback 2, Callback 3, Callback 4, Callback 5,
                   Callback 6, Callback 7, Callback 8, CollapseEdge 0 1 True None,
                   Callback 9]\<rparr> \<and>
   length (vertex (cur_mesh (initial_state thin_triangle))) = 3 \<and>
   length (vertex thin_triangle_collapsed) = 2 \<and>
   \<not> (\<exists>s'. iteration modelled until_collapse (144 / 5) (176 / 3) (53 / 80) 6 10
         \<lparr>cur_mesh = thin_triangle_collapsed, boundary = {0, 1, 2}, count = 2,
          num_vertices_1 = Some 3,
          calls = [Callback 0, Callback 1, Callback 2, Callback 3, Callback 4, Callback 5,
                   Callback 6, Callback 7, Callback 8, CollapseEdge 0 1 True None,
                   Callback 9]\<rparr> = Inr (True, s')) \<and>
   \<not> abs (1 - real 3 / real 2) < divergence until_collapse \<and>
   abs (1 - real 2 / real 3) < divergence until_collapse"
proof -
  have t: "(int 10 - 10) mod 20 = 0"
    by simp
  have m: "cur_mesh round_ten = right_triangle"
    by (simp add: round_ten_def)
  have q: "after_quiet_phase 10 round_ten = round_ten\<lparr>count := 3\<rparr>"
    by (simp add: after_quiet_phase_def entering_phase_def round_ten_def)
  have r: "iterations C twelve_rounds (72 / 25) (88 / 15) (5 / 8) 6 [10 - 10..<10]
        (initial_state right_triangle) = Inr round_ten" for C
    using rt_ten_rounds [of C] by simp
  have u: "upto_phase C twelve_rounds (72 / 25) (88 / 15) (5 / 8) 6 10 round_ten
          = Inr (round_ten\<lparr>count := 3\<rparr>)" for C
    using rt_upto_phase [OF m, of C 10] by (simp add: q)
  have n: "length (vertex (cur_mesh (initial_state right_triangle))) = 3"
    "length (vertex (cur_mesh (round_ten\<lparr>count := 3\<rparr>))) = 3"
    by (simp_all add: round_ten_def initial_state_def rt_nverts)
  have d: "abs (1 - real 3 / real 3) < divergence twelve_rounds"
    by (simp add: twelve_rounds_def)
  have k: "real_of_int (kmax twelve_rounds) / 2 = 6"
    by (simp add: twelve_rounds_def)
  have a: "\<exists>s'. iteration C twelve_rounds (72 / 25) (88 / 15) (5 / 8) 6 10 round_ten
                = Inr (True, s')" for C
    using early_termination_test [OF t r n(1) u n(2), where ks = "[]"] d by simp
  have r': "iterations modelled until_collapse (144 / 5) (176 / 3) (53 / 80) 6 [10 - 10..<10]
     (initial_state thin_triangle) =
     Inr \<lparr>cur_mesh = thin_triangle_collapsed, boundary = {0, 1, 2}, count = 2,
          num_vertices_1 = Some 3,
          calls = [Callback 0, Callback 1, Callback 2, Callback 3, Callback 4, Callback 5,
                   Callback 6, Callback 7, Callback 8, CollapseEdge 0 1 True None,
                   Callback 9]\<rparr>"
    using thin_ten_rounds by simp
  have n': "length (vertex (cur_mesh (initial_state thin_triangle))) = 3"
    "length (vertex (cur_mesh \<lparr>cur_mesh = thin_triangle_collapsed, boundary = {0, 1, 2},
       count = 3, num_vertices_1 = Some 3,
       calls = [Callback 0, Callback 1, Callback 2, Callback 3, Callback 4, Callback 5,
                Callback 6, Callback 7, Callback 8, CollapseEdge 0 1 True None,
                Callback 9]\<rparr>)) = 2"
    by (simp_all add: initial_state_def thin_nverts collapsed_nverts)
  have d': "\<not> abs (1 - real 3 / real 2) < divergence until_collapse"
    "abs (1 - real 2 / real 3) < divergence until_collapse"
    by (simp_all add: until_collapse_def)
  have b: "\<not> (\<exists>s'. iteration modelled until_collapse (144 / 5) (176 / 3) (53 / 80) 6 10
         \<lparr>cur_mesh = thin_triangle_collapsed, boundary = {0, 1, 2}, count = 2,
          num_vertices_1 = Some 3,
          calls = [Callback 0, Callback 1, Callback 2, Callback 3, Callback 4, Callback 5,
                   Callback 6, Callback 7, Callback 8, CollapseEdge 0 1 True None,
                   Callback 9]\<rparr> = Inr (True, s'))"
    using early_termination_test [OF t r' n'(1) thin_phase_10 n'(2), where ks = "[]"] d'(1)
    by simp
  show ?thesis
    by (intro conjI allI t r u n a d r' n'(1) collapsed_nverts b d') simp
qed


text \<open>
  Claim C2 as stated fails. The call on the thin triangle saves the vertex count 3 in
  round 0, collapses the edge \<open>(0, 1)\<close> of length 28 in round 9 (the first collapse
  round whose threshold, 144/5, exceeds 28), and reaches the test of round 10 with 2
  vertices. The current count over the saved one gives \<open>|1 - 2 / 3| = 1 / 3 < 2 / 5\<close>, so
  by the claim the loop ends in round 10. The code computes \<open>|1 - 3 / 2| = 1 / 2\<close>, which is
  not below 2/5: the rounds 10 and 11 run to their ends, each with its callback.
\<close>

theorem early_termination_counterexample:
  "claimed_stop until_collapse 10 3 2 \<and>
   trimesh_optimise_topology modelled until_collapse thin_triangle =
     Inr \<lparr>cur_mesh = thin_triangle_collapsed, boundary = {0, 1, 2}, count = 0,
          num_vertices_1 = Some 3,
          calls = [Callback 0, Callback 1, Callback 2, Callback 3, Callback 4, Callback 5,
                   Callback 6, Callback 7, Callback 8, CollapseEdge 0 1 True None,
                   Callback 9, Callback 10, Callback 11]\<rparr>"
proof -
  have cl: "claimed_stop until_collapse 10 3 2"
    by (simp add: claimed_stop_def until_collapse_def)
  have mx: "py_max [28, 53, 45] = Inr 53"
    by (simp add: py_max_def)
  have "trimesh_optimise_topology modelled until_collapse thin_triangle =
      iterations modelled until_collapse (144 / 5) (176 / 3) (53 / 80) 6 [0..<12]
        (initial_state thin_triangle)"
    using run_of_rounds [OF thin_map_err mx until_collapse_values(6), of modelled]
    by (simp add: until_collapse_values)
  then have "trimesh_optimise_topology modelled until_collapse thin_triangle =
     Inr \<lparr>cur_mesh = thin_triangle_collapsed, boundary = {0, 1, 2}, count = 0,
          num_vertices_1 = Some 3,
          calls = [Callback 0, Callback 1, Callback 2, Callback 3, Callback 4, Callback 5,
                   Callback 6, Callback 7, Callback 8, CollapseEdge 0 1 True None,
                   Callback 9, Callback 10, Callback 11]\<rparr>"
    unfolding upt12
    by (simp add: thin_iteration initial_state_def after_quiet_phase_def entering_phase_def
        thin_boundary thin_nverts thin_round_9 [unfolded One_nat_def]
        thin_round_10 [unfolded One_nat_def] thin_round_11 [unfolded One_nat_def] Let_def)
  with cl show ?thesis by simp
qed


end
